theory Spec2Isabelle
  imports Complex_Main "HOL-Library.Stream"
begin

section \<open>Data model of ChessDbFile.js\<close>

text \<open>
  An identifier handed to the store is either the number \<open>0\<close> (the reservoir, "the world")
  or a string. Accounts carry string identifiers (\<open>uuidv4()\<close> returns a string, and the
  snapshot schema has \<open>"uuid": str\<close>), so \<open>x.uuid === 0\<close> is false for every account.
\<close>

datatype ident = Sentinel | Id string

text \<open>
  One element of \<open>db.students\<close>. The cached balance is an integer: the only assignment
  to it is the fold of \<open>getStudentBalance\<close>, a sum of 32-bit integers (exact in a double
  below \<open>2^53\<close>).
\<close>

record student =
  uuid :: string
  name :: string
  pash :: string
  balance :: int

text \<open>
  One element of \<open>db.transactions\<close>. The amount is a finite JavaScript number, taken as
  a rational (\<open>NaN\<close> and the infinities differ from their \<open>| 0\<close>, which is 0, so
  \<open>createTransaction\<close> rejects them as it rejects every other non-integer); \<open>from\<close> and
  \<open>to\<close> are the fields \<open>from_id\<close> and \<open>to_id\<close>.
\<close>

record tx =
  time :: int
  from_id :: ident
  to_id :: ident
  amount :: rat
  memo :: string

record db =
  students :: "student list"
  transactions :: "tx list"

text \<open>
  A promise is either pending, fulfilled or rejected. The promise built by
  \<open>new Promise(res => finish = res)\<close> in \<open>scheduleWrite\<close> is named by its index in
  the table \<open>promises\<close>.
\<close>

datatype outcome = Pending | Fulfilled | Rejected

text \<open>
  An activation of \<open>scheduleWrite\<close> that started a write cycle is suspended at one of its
  two \<open>await\<close>s: at the timer, or at \<open>fs.writeFile\<close> with the text
  \<open>JSON.stringify(this.db)\<close> it was called with.
\<close>

datatype phase = Debounce | Flushing db

text \<open>
  What a caller of \<open>scheduleWrite\<close> holds. \<open>Joins p\<close>: the call found \<open>this.writeP\<close>
  set to promise \<open>p\<close> and returned it. \<open>Starts p\<close>: the call created promise \<open>p\<close> and
  runs the write cycle; its own result is settled when its body ends.
\<close>

datatype completion = Joins nat | Starts nat

text \<open>
  The store: \<open>this.db\<close>, \<open>this.writeP\<close> (\<open>None\<close> is \<open>null\<close>), and the part of the
  runtime the scheduler lives in: the promises created so far, the suspended activations of
  \<open>scheduleWrite\<close>, the activations that ended by an exception, and the last text written
  to \<open>bank.json\<close>.
\<close>

record store =
  db :: db
  writeP :: "nat option"
  promises :: "outcome list"
  running :: "(nat \<times> phase) list"
  thrown :: "nat list"
  disk :: "db option"

text \<open>
  The values of the table \<open>ERRORS\<close>, as the source computes them: each is the result of
  a comparison \<open>1 < k\<close>, a boolean.
\<close>

definition ERRORS_READ :: bool where
  "ERRORS_READ = ((1::int) < 0)"

definition ERRORS_PARSE :: bool where
  "ERRORS_PARSE = ((1::int) < 1)"

definition ERRORS_DUPLICATE :: bool where
  "ERRORS_DUPLICATE = ((1::int) < 2)"

text \<open>
  Every \<open>throw new Error(...)\<close> of the source, by its message, and \<open>process.exit(code)\<close>.
\<close>

datatype error =
    NameSpaces \<comment> \<open>Name must not have leading/trailing spaces\<close>
  | NameMissing \<comment> \<open>Name must be provided\<close>
  | PasswordShort \<comment> \<open>Password must be at least 10 characters\<close>
  | UserExists string \<comment> \<open>User "..." already exists.\<close>
  | SelfTransfer \<comment> \<open>Self to self money transfer doesn't make sense\<close>
  | AmountsNotIntegers \<comment> \<open>Amounts must be integers\<close>
  | AmountNotPositive \<comment> \<open>Amount must be greater than 0\<close>
  | StudentMissing ident \<comment> \<open>Student with UUID '...' does not exist\<close>
  | LockHeld \<comment> \<open>the exception of \<open>lockFile.lockSync\<close>\<close>
  | Exit bool \<comment> \<open>\<open>process.exit\<close> with a value of \<open>ERRORS\<close>\<close>

type_synonym 'a result = "(error + 'a) \<times> store"

section \<open>Numbers\<close>

text \<open>
  \<open>x | 0\<close> on a finite number: truncate towards zero, then wrap into the signed 32-bit
  range.
\<close>

definition toInt32 :: "rat \<Rightarrow> int" where
  "toInt32 x =
     (let n = (if x < 0 then \<lceil>x\<rceil> else \<lfloor>x\<rfloor>)
      in (n + 2 ^ 31) mod 2 ^ 32 - 2 ^ 31)"

section \<open>The write scheduler\<close>

text \<open>
  \<open>scheduleWrite\<close> up to its first \<open>await\<close>: with \<open>writeP\<close> set the call returns it;
  otherwise it creates a pending promise, stores it in \<open>writeP\<close> and suspends at the timer.
\<close>

definition scheduleWrite :: "store \<Rightarrow> completion \<times> store" where
  "scheduleWrite s =
     (case writeP s of
        Some p \<Rightarrow> (Joins p, s)
      | None \<Rightarrow>
          (let p = length (promises s)
           in (Starts p,
               s\<lparr>writeP := Some p,
                 promises := promises s @ [Pending],
                 running := running s @ [(p, Debounce)]\<rparr>)))"

text \<open>
  The timer of activation \<open>p\<close> fires: the activation serialises \<open>this.db\<close> as it is now
  and suspends at \<open>fs.writeFile\<close>.
\<close>

definition timer_fires :: "nat \<Rightarrow> store \<Rightarrow> store" where
  "timer_fires p s =
     s\<lparr>running :=
         map (\<lambda>(q, ph). if q = p \<and> ph = Debounce then (q, Flushing (db s)) else (q, ph))
           (running s)\<rparr>"

text \<open>
  The text that activation \<open>p\<close> is writing, when it is suspended at \<open>fs.writeFile\<close>.
\<close>

definition flushing :: "nat \<Rightarrow> store \<Rightarrow> db option" where
  "flushing p s =
     (case filter (\<lambda>(q, ph). q = p \<and> ph \<noteq> Debounce) (running s) of
        (_, Flushing snapshot) # _ \<Rightarrow> Some snapshot
      | _ \<Rightarrow> None)"

text \<open>
  \<open>fs.writeFile\<close> of activation \<open>p\<close> succeeds: the text is on disk, \<open>this.writeP = null\<close>,
  \<open>finish()\<close> fulfils the promise, and the activation returns.
\<close>

definition write_succeeds :: "nat \<Rightarrow> store \<Rightarrow> store" where
  "write_succeeds p s =
     (case flushing p s of
        None \<Rightarrow> s
      | Some snapshot \<Rightarrow>
          s\<lparr>disk := Some snapshot,
            writeP := None,
            promises := (promises s)[p := Fulfilled],
            running := filter (\<lambda>(q, ph). q \<noteq> p) (running s)\<rparr>)"

text \<open>
  \<open>fs.writeFile\<close> of activation \<open>p\<close> fails: the \<open>await\<close> throws, nothing catches it, and
  the activation ends there. The two statements after the \<open>await\<close> do not run.
\<close>

definition write_fails :: "nat \<Rightarrow> store \<Rightarrow> store" where
  "write_fails p s =
     (case flushing p s of
        None \<Rightarrow> s
      | Some snapshot \<Rightarrow>
          s\<lparr>running := filter (\<lambda>(q, ph). q \<noteq> p) (running s),
            thrown := thrown s @ [p]\<rparr>)"

text \<open>
  The state of what a caller holds: a joined promise is the promise itself; the result
  of the activation that started the cycle is rejected when the activation threw, and
  otherwise follows the promise it returns. A number that names no promise has no state.
\<close>

definition settled :: "store \<Rightarrow> completion \<Rightarrow> outcome option" where
  "settled s c =
     (case c of
        Joins p \<Rightarrow> (if p < length (promises s) then Some (promises s ! p) else None)
      | Starts p \<Rightarrow>
          (if p < length (promises s)
           then Some (if p \<in> set (thrown s) then Rejected else promises s ! p)
           else None))"

section \<open>Accounts\<close>

text \<open>
  \<open>getStudentCheck\<close>: more than one match ends the process, one match is the account
  (the reference itself in the calls of this class), none is \<open>null\<close>.
\<close>

definition getStudentCheck :: "student list \<Rightarrow> error + student option" where
  "getStudentCheck sts =
     (if length sts > 1 then Inl (Exit ERRORS_DUPLICATE)
      else if length sts = 1 then Inr (Some (hd sts))
      else Inr None)"

definition getStudentByUUID :: "ident \<Rightarrow> store \<Rightarrow> error + student option" where
  "getStudentByUUID u s =
     getStudentCheck (filter (\<lambda>x. Id (uuid x) = u) (students (db s)))"

definition getStudentByName :: "string \<Rightarrow> store \<Rightarrow> error + student option" where
  "getStudentByName nm s =
     getStudentCheck (filter (\<lambda>x. name x = nm) (students (db s)))"

section \<open>Balances and transfers\<close>

text \<open>
  The \<open>reduce\<close> of \<open>getStudentBalance\<close>: each transaction adds
  \<open>(tx.amount | 0) * ((tx.to === uuid) - (tx.from === uuid))\<close>.
\<close>

definition replay :: "ident \<Rightarrow> tx list \<Rightarrow> int" where
  "replay u txs =
     foldl (\<lambda>bal t. bal + toInt32 (amount t) * (of_bool (to_id t = u) - of_bool (from_id t = u)))
       0 txs"

text \<open>
  The assignment \<open>student.balance = b\<close> through the reference that
  \<open>getStudentByUUID(uuid, true)\<close> returned: the one account with that identifier.
\<close>

definition set_balance :: "ident \<Rightarrow> int \<Rightarrow> store \<Rightarrow> store" where
  "set_balance u b s =
     s\<lparr>db := (db s)\<lparr>students :=
         map (\<lambda>x. if Id (uuid x) = u then x\<lparr>balance := b\<rparr> else x) (students (db s))\<rparr>\<rparr>"

definition getStudentBalance :: "ident \<Rightarrow> bool \<Rightarrow> store \<Rightarrow> int result" where
  "getStudentBalance u recalc s =
     (if u = Sentinel then (Inr 10000, s)
      else case getStudentByUUID u s of
        Inl e \<Rightarrow> (Inl e, s)
      | Inr None \<Rightarrow> (Inl (StudentMissing u), s)
      | Inr (Some st) \<Rightarrow>
          (if recalc then
             (let b = replay u (transactions (db s));
                  s' = snd (scheduleWrite (set_balance u b s))
              in (Inr b, s'))
           else (Inr (balance st), s)))"

text \<open>
  \<open>createTransaction\<close>, with the value of \<open>Date.now()\<close> as \<open>now\<close>. The result \<open>None\<close>
  is \<open>null\<close>. The block of \<open>if (to === 0)\<close> is empty and the lookup of \<open>to\<close> follows it
  unconditionally. Both calls under \<open>Promise.all\<close> run; the first rejection is the result.
\<close>

definition commit :: "ident \<Rightarrow> ident \<Rightarrow> rat \<Rightarrow> string \<Rightarrow> int \<Rightarrow> store \<Rightarrow> (int \<times> int) option result" where
  "commit from to amt mem now s =
     (case getStudentByUUID to s of
        Inl e \<Rightarrow> (Inl e, s)
      | Inr None \<Rightarrow> (Inl (StudentMissing to), s)
      | Inr (Some _) \<Rightarrow>
          (let s1 = s\<lparr>db := (db s)\<lparr>transactions := transactions (db s) @
                      [\<lparr>time = now, from_id = from, to_id = to, amount = amt, memo = mem\<rparr>]\<rparr>\<rparr>;
               r1 = getStudentBalance from True s1;
               r2 = getStudentBalance to True (snd r1)
           in case fst r1 of
                Inl e \<Rightarrow> (Inl e, snd r2)
              | Inr b1 \<Rightarrow>
                  (case fst r2 of
                     Inl e \<Rightarrow> (Inl e, snd r2)
                   | Inr b2 \<Rightarrow> (Inr (Some (b1, b2)), snd (scheduleWrite (snd r2))))))"

definition createTransaction ::
  "ident \<Rightarrow> ident \<Rightarrow> rat \<Rightarrow> string \<Rightarrow> int \<Rightarrow> store \<Rightarrow> (int \<times> int) option result" where
  "createTransaction from to amt mem now s =
     (if from = to then (Inl SelfTransfer, s)
      else if amt \<noteq> of_int (toInt32 amt) then (Inl AmountsNotIntegers, s)
      else if amt \<le> 0 then (Inl AmountNotPositive, s)
      else if from = Sentinel then commit from to amt mem now s
      else
        (let r = getStudentBalance from True s
         in case fst r of
              Inl e \<Rightarrow> (Inl e, snd r)
            | Inr b \<Rightarrow>
                (if of_int b < amt then (Inr None, snd r)
                 else commit from to amt mem now (snd r))))"

section \<open>Creating and verifying accounts\<close>

text \<open>
  \<open>String.prototype.trim\<close> removes white space and line terminators at both ends. A
  character is a code unit below 256; of those, the ones \<open>trim\<close> removes are tab, line
  feed, vertical tab, form feed, carriage return, space and no-break space.
\<close>

definition is_space :: "char \<Rightarrow> bool" where
  "is_space c = (of_char c \<in> {9, 10, 11, 12, 13, 32, 160 :: nat})"

definition trim :: "string \<Rightarrow> string" where
  "trim str = rev (dropWhile is_space (rev (dropWhile is_space str)))"

text \<open>
  The loop \<open>do { uuid = uuidv4() } while (...)\<close>. The generator is the stream of the
  values its calls will return; the loop draws at least one and stops at the first that no
  account carries. A loop that never stops has the value \<open>None\<close>.
\<close>

partial_function (option) fresh_uuid ::
  "student list \<Rightarrow> string stream \<Rightarrow> (string \<times> string stream) option" where
  "fresh_uuid sts gen =
     (if filter (\<lambda>x. uuid x = shd gen) sts \<noteq> [] then fresh_uuid sts (stl gen)
      else Some (shd gen, stl gen))"

text \<open>
  \<open>createStudent\<close>, with \<open>hash pw\<close> the digest that \<open>bcrypt.hash(password, 10)\<close>
  resolves to. The result carries the rest of the generator. The call is taken from its
  first check to its \<open>return\<close> with nothing else running while it waits for the digest.
\<close>

definition createStudent ::
  "(string \<Rightarrow> string) \<Rightarrow> string stream \<Rightarrow> string \<Rightarrow> string \<Rightarrow> store
     \<Rightarrow> (string result \<times> string stream) option" where
  "createStudent hash gen nm pw s =
     (if trim nm \<noteq> nm then Some ((Inl NameSpaces, s), gen)
      else if length nm = 0 then Some ((Inl NameMissing, s), gen)
      else if length pw < 10 then Some ((Inl PasswordShort, s), gen)
      else if filter (\<lambda>x. name x = nm) (students (db s)) \<noteq> [] then
        Some ((Inl (UserExists nm), s), gen)
      else case fresh_uuid (students (db s)) gen of
        None \<Rightarrow> None
      | Some (u, gen') \<Rightarrow>
          (let s1 = s\<lparr>db := (db s)\<lparr>students := students (db s) @
                      [\<lparr>uuid = u, name = nm, pash = hash pw, balance = 0\<rparr>]\<rparr>\<rparr>
           in Some ((Inr u, snd (scheduleWrite s1)), gen')))"

text \<open>The messages that \<open>verifyStudent\<close> pushes on \<open>ret.err\<close>.\<close>

datatype failure =
    NameBlank \<comment> \<open>Name must not be blank\<close>
  | PasswordBlank \<comment> \<open>Password must not be blank\<close>
  | DoesNotExist string \<comment> \<open>"..." does not exist\<close>
  | WrongPassword \<comment> \<open>Wrong password\<close>

text \<open>The object \<open>ret\<close>; \<open>student: false\<close> is \<open>None\<close>.\<close>

record ret =
  student :: "student option"
  err :: "failure list"

text \<open>
  \<open>verifyStudent\<close>, with \<open>compare pw digest\<close> the boolean that \<open>bcrypt.compare\<close>
  resolves to. Three paths end in \<open>return ret\<close>. The last path assigns \<open>ret.student\<close>
  and reaches the end of the function body, so its value is \<open>undefined\<close>: \<open>None\<close>.
\<close>

definition verifyStudent ::
  "(string \<Rightarrow> string \<Rightarrow> bool) \<Rightarrow> string \<Rightarrow> string \<Rightarrow> store \<Rightarrow> error + ret option" where
  "verifyStudent compare nm pw s =
     (let e = (if length nm = 0 then [NameBlank] else []) @
              (if length pw = 0 then [PasswordBlank] else [])
      in if e \<noteq> [] then Inr (Some \<lparr>student = None, err = e\<rparr>)
         else
           (let sts = filter (\<lambda>x. name x = nm) (students (db s))
            in if length sts > 1 then Inl (Exit ERRORS_DUPLICATE)
               else if length sts = 0 then
                 Inr (Some \<lparr>student = None, err = [DoesNotExist nm]\<rparr>)
               else if \<not> compare pw (pash (hd sts)) then
                 Inr (Some \<lparr>student = None, err = [WrongPassword]\<rparr>)
               else Inr None))"

section \<open>Start-up\<close>

text \<open>
  The constructor. \<open>lock_ok\<close>: \<open>lockFile.lockSync\<close> returned. \<open>bank\<close>: \<open>None\<close> when
  \<open>bank.json\<close> does not exist, \<open>Some None\<close> when \<open>readFileSync\<close> throws, else the
  text read. \<open>parse\<close>: \<open>JSON.parse\<close>, \<open>None\<close> when it throws, else the two collections
  of the object, each \<open>None\<close> when absent.
\<close>

definition fresh_store :: "student list \<Rightarrow> tx list \<Rightarrow> store" where
  "fresh_store sts txs =
     \<lparr>db = \<lparr>students = sts, transactions = txs\<rparr>,
      writeP = None, promises = [], running = [], thrown = [], disk = None\<rparr>"

definition constructor ::
  "bool \<Rightarrow> string option option
     \<Rightarrow> (string \<Rightarrow> (student list option \<times> tx list option) option) \<Rightarrow> error + store" where
  "constructor lock_ok bank parse =
     (if \<not> lock_ok then Inl LockHeld
      else case (case bank of
                   None \<Rightarrow> Inr []
                 | Some None \<Rightarrow> Inl (Exit ERRORS_READ)
                 | Some (Some text) \<Rightarrow> Inr (trim text)) of
        Inl e \<Rightarrow> Inl e
      | Inr bankStr \<Rightarrow>
          (if bankStr \<noteq> [] \<and> hd bankStr = CHR ''{'' then
             (case parse bankStr of
                None \<Rightarrow> Inl (Exit ERRORS_PARSE)
              | Some (sts, txs) \<Rightarrow>
                  Inr (fresh_store (case sts of None \<Rightarrow> [] | Some l \<Rightarrow> l)
                         (case txs of None \<Rightarrow> [] | Some l \<Rightarrow> l)))
           else if length bankStr \<noteq> 0 then Inl (Exit ERRORS_PARSE)
           else Inr (fresh_store [] [])))"

section \<open>Runs of the store\<close>

text \<open>
  What can happen to a store, one after the other: a call of its interface, run to its
  end, or the resumption of a suspended activation of \<open>scheduleWrite\<close>. A call of
  \<open>createStudent\<close> whose loop never ends leaves the store as it is.
\<close>

datatype event =
    CreateStudent "string \<Rightarrow> string" "string stream" string string
  | GetStudentBalance ident bool
  | CreateTransaction ident ident rat string int
  | ScheduleWrite
  | TimerFires nat
  | WriteSucceeds nat
  | WriteFails nat

fun step :: "event \<Rightarrow> store \<Rightarrow> store" where
  "step (CreateStudent hash gen nm pw) s =
     (case createStudent hash gen nm pw s of None \<Rightarrow> s | Some (r, _) \<Rightarrow> snd r)"
| "step (GetStudentBalance u recalc) s = snd (getStudentBalance u recalc s)"
| "step (CreateTransaction from to amt mem now) s = snd (createTransaction from to amt mem now s)"
| "step ScheduleWrite s = snd (scheduleWrite s)"
| "step (TimerFires p) s = timer_fires p s"
| "step (WriteSucceeds p) s = write_succeeds p s"
| "step (WriteFails p) s = write_fails p s"

fun run :: "event list \<Rightarrow> store \<Rightarrow> store" where
  "run [] s = s"
| "run (e # es) s = run es (step e s)"

text \<open>
  The fold the specification describes, in its words: starting from 0, add the amount of
  each transaction with \<open>to == id\<close> and subtract the amount of each with \<open>from == id\<close>.
\<close>

fun spec_fold :: "ident \<Rightarrow> tx list \<Rightarrow> rat \<Rightarrow> rat" where
  "spec_fold u [] bal = bal"
| "spec_fold u (t # ts) bal =
     spec_fold u ts
       (bal + (if to_id t = u then amount t else 0) - (if from_id t = u then amount t else 0))"

section \<open>Predicates on the scheduler\<close>

text \<open>The part of the store that \<open>scheduleWrite\<close> and its resumptions read and write.\<close>

definition sched ::
  "store \<Rightarrow> nat option \<times> outcome list \<times> (nat \<times> phase) list \<times> nat list \<times> db option" where
  "sched s = (writeP s, promises s, running s, thrown s, disk s)"

text \<open>
  The single pending-write slot: at most one activation is suspended, it is the one whose
  promise \<open>writeP\<close> holds, and the promise in \<open>writeP\<close> is pending.
\<close>

definition sched_inv :: "store \<Rightarrow> bool" where
  "sched_inv s \<longleftrightarrow>
     length (running s) \<le> 1 \<and>
     list_all (\<lambda>c. writeP s = Some (fst c)) (running s) \<and>
     (case writeP s of None \<Rightarrow> True | Some p \<Rightarrow> p < length (promises s) \<and> promises s ! p = Pending)"

text \<open>
  A store whose \<open>writeP\<close> holds a pending promise that no activation is left to settle.
\<close>

definition stuck :: "nat \<Rightarrow> store \<Rightarrow> bool" where
  "stuck p s \<longleftrightarrow>
     writeP s = Some p \<and> running s = [] \<and> p < length (promises s) \<and> promises s ! p = Pending"

text \<open>
  \<open>joins s s'\<close>: the scheduler part of \<open>s'\<close> is that of \<open>s\<close>, or that of \<open>s\<close> after one
  call of \<open>scheduleWrite\<close>.
\<close>

definition joins :: "store \<Rightarrow> store \<Rightarrow> bool" where
  "joins s s' \<longleftrightarrow> sched s' = sched s \<or> sched s' = sched (snd (scheduleWrite s))"

lemmas eval_defs = createTransaction_def commit_def getStudentBalance_def getStudentByUUID_def
  getStudentCheck_def replay_def set_balance_def scheduleWrite_def fresh_store_def toInt32_def
  ERRORS_DUPLICATE_def Let_def

section \<open>Numbers: the integrality check\<close>

lemma toInt32_of_int: "toInt32 (of_int n) = (n + 2 ^ 31) mod 2 ^ 32 - 2 ^ 31"
  by (simp add: toInt32_def)

lemma toInt32_range: "- (2 ^ 31) \<le> toInt32 x \<and> toInt32 x < 2 ^ 31"
proof -
  define n where "n = (if x < 0 then \<lceil>x\<rceil> else \<lfloor>x\<rfloor>)"
  have "0 \<le> (n + 2 ^ 31) mod 2 ^ 32" and "(n + 2 ^ 31) mod 2 ^ 32 < (2 ^ 32 :: int)"
    by simp_all
  moreover have "toInt32 x = (n + 2 ^ 31) mod 2 ^ 32 - 2 ^ 31"
    by (simp add: toInt32_def n_def)
  ultimately show ?thesis by simp
qed

lemma toInt32_fixed_iff:
  "(x = of_int (toInt32 x)) \<longleftrightarrow> (\<exists>n. x = of_int n \<and> - (2 ^ 31) \<le> n \<and> n < 2 ^ 31)"
proof
  assume "x = of_int (toInt32 x)"
  then show "\<exists>n. x = of_int n \<and> - (2 ^ 31) \<le> n \<and> n < 2 ^ 31"
    using toInt32_range [of x] by blast
next
  assume "\<exists>n. x = of_int n \<and> - (2 ^ 31) \<le> n \<and> n < 2 ^ 31"
  then obtain n where n: "x = of_int n" "- (2 ^ 31) \<le> n" "n < 2 ^ 31" by blast
  have "(n + 2 ^ 31) mod 2 ^ 32 = n + 2 ^ 31"
    using n by (simp add: mod_pos_pos_trivial)
  then show "x = of_int (toInt32 x)"
    by (simp add: n toInt32_of_int)
qed

lemma toInt32_big: "2 ^ 31 \<le> n \<Longrightarrow> (of_int n :: rat) \<noteq> of_int (toInt32 (of_int n))"
proof
  assume big: "2 ^ 31 \<le> n" and "(of_int n :: rat) = of_int (toInt32 (of_int n))"
  then have "n = toInt32 (of_int n)" by simp
  with toInt32_range [of "of_int n"] big show False by simp
qed

section \<open>What each operation leaves alone\<close>

lemma db_scheduleWrite: "db (snd (scheduleWrite s)) = db s"
  by (simp add: scheduleWrite_def Let_def split: option.split)

lemma transactions_set_balance: "transactions (db (set_balance u b s)) = transactions (db s)"
  by (simp add: set_balance_def)

lemma filter_set_balance:
  "filter (\<lambda>x. Id (uuid x) = u) (map (\<lambda>x. if Id (uuid x) = u then x\<lparr>balance := b\<rparr> else x) xs)
     = map (\<lambda>x. x\<lparr>balance := b\<rparr>) (filter (\<lambda>x. Id (uuid x) = u) xs)"
  by (induction xs) auto

lemma getStudentCheck_map:
  "getStudentCheck (map f xs) = map_sum id (map_option f) (getStudentCheck xs)"
  by (cases xs) (auto simp: getStudentCheck_def)

lemma getStudentByUUID_set_balance:
  "getStudentByUUID u (set_balance u b s)
     = map_sum id (map_option (\<lambda>x. x\<lparr>balance := b\<rparr>)) (getStudentByUUID u s)"
  by (simp add: getStudentByUUID_def set_balance_def filter_set_balance getStudentCheck_map)

lemma getStudentByUUID_Sentinel: "getStudentByUUID Sentinel s = Inr None"
  by (simp add: getStudentByUUID_def getStudentCheck_def)

lemma getStudentBalance_recalc:
  "u \<noteq> Sentinel \<Longrightarrow> getStudentByUUID u s = Inr (Some st) \<Longrightarrow>
   getStudentBalance u True s =
     (Inr (replay u (transactions (db s))),
      snd (scheduleWrite (set_balance u (replay u (transactions (db s))) s)))"
  by (simp add: getStudentBalance_def Let_def)

lemma getStudentBalance_Inr:
  "u \<noteq> Sentinel \<Longrightarrow> fst (getStudentBalance u True s) = Inr b \<Longrightarrow>
   \<exists>st. getStudentByUUID u s = Inr (Some st)"
  by (auto simp: getStudentBalance_def Let_def split: sum.splits option.splits)

lemma transactions_getStudentBalance:
  "transactions (db (snd (getStudentBalance u r s))) = transactions (db s)"
  by (simp add: getStudentBalance_def Let_def db_scheduleWrite transactions_set_balance
      split: sum.split option.split)

lemma transactions_commit:
  "transactions (db (snd (commit from to amt mem now s))) = transactions (db s) \<or>
   transactions (db (snd (commit from to amt mem now s))) =
     transactions (db s) @ [\<lparr>time = now, from_id = from, to_id = to, amount = amt, memo = mem\<rparr>]"
  by (simp add: commit_def Let_def db_scheduleWrite transactions_getStudentBalance
      split: sum.split option.split)

section \<open>Transfers: validation\<close>

text \<open>
  Claim C6. A call of \<open>createTransaction\<close> with an amount that is at most 0, or with an
  amount that is not an integer, or with \<open>from\<close> equal to \<open>to\<close>, throws one of the three
  validation errors, and the store it leaves is the store it found: nothing is appended
  to the transaction log.
\<close>

theorem createTransaction_rejects_invalid:
  assumes "amt \<le> 0 \<or> amt \<notin> \<int> \<or> from = to"
  shows "fst (createTransaction from to amt mem now s)
           \<in> {Inl SelfTransfer, Inl AmountsNotIntegers, Inl AmountNotPositive}
         \<and> snd (createTransaction from to amt mem now s) = s"
proof (cases "from = to")
  case True
  then show ?thesis by (simp add: createTransaction_def)
next
  case ne: False
  show ?thesis
  proof (cases "amt = of_int (toInt32 amt)")
    case False
    with ne show ?thesis by (simp add: createTransaction_def)
  next
    case True
    then have "amt \<in> \<int>" by (metis Ints_of_int)
    with assms ne have "amt \<le> 0" by blast
    with ne True show ?thesis by (simp add: createTransaction_def)
  qed
qed

theorem createTransaction_rejects_invalid_witness:
  "(- 5 :: rat) \<le> 0 \<and>
   fst (createTransaction Sentinel (Id ''a'') (- 5) ''gift'' 0 (fresh_store [] []))
     \<in> {Inl SelfTransfer, Inl AmountsNotIntegers, Inl AmountNotPositive} \<and>
   snd (createTransaction Sentinel (Id ''a'') (- 5) ''gift'' 0 (fresh_store [] []))
     = fresh_store [] []"
  using createTransaction_rejects_invalid
    [of "- 5" Sentinel "Id ''a''" "''gift''" 0 "fresh_store [] []"]
  by simp

section \<open>Transfers: what enters the log\<close>

lemma createTransaction_log:
  "transactions (db (snd (createTransaction from to amt mem now s))) = transactions (db s) \<or>
   transactions (db (snd (createTransaction from to amt mem now s))) =
     transactions (db s) @ [\<lparr>time = now, from_id = from, to_id = to, amount = amt, memo = mem\<rparr>] \<and>
   (\<exists>n. amt = of_int n \<and> 1 \<le> n \<and> n \<le> 2 ^ 31 - 1)"
proof -
  let ?r = "createTransaction from to amt mem now s"
  let ?t = "\<lparr>time = now, from_id = from, to_id = to, amount = amt, memo = mem\<rparr>"
  show ?thesis
  proof (cases "from \<noteq> to \<and> amt = of_int (toInt32 amt) \<and> \<not> amt \<le> 0")
    case False
    then show ?thesis by (auto simp: createTransaction_def)
  next
    case True
    then obtain n where n: "amt = of_int n" "- (2 ^ 31) \<le> n" "n < 2 ^ 31"
      using toInt32_fixed_iff [of amt] by blast
    with True have "1 \<le> n" by simp
    with n have rng: "\<exists>n. amt = of_int n \<and> 1 \<le> n \<and> n \<le> 2 ^ 31 - 1" by auto
    have c: "transactions (db (snd (commit from to amt mem now s'))) = transactions (db s') \<or>
      transactions (db (snd (commit from to amt mem now s'))) = transactions (db s') @ [?t]" for s'
      by (rule transactions_commit)
    show ?thesis
    proof (cases "from = Sentinel")
      case True
      with \<open>from \<noteq> to \<and> amt = of_int (toInt32 amt) \<and> \<not> amt \<le> 0\<close>
      have "?r = commit from to amt mem now s" by (simp add: createTransaction_def)
      with c [of s] rng show ?thesis by auto
    next
      case False
      let ?g = "getStudentBalance from True s"
      have g: "transactions (db (snd ?g)) = transactions (db s)"
        by (rule transactions_getStudentBalance)
      from False True
      have "?r = (case fst ?g of Inl e \<Rightarrow> (Inl e, snd ?g)
                  | Inr b \<Rightarrow> if of_int b < amt then (Inr None, snd ?g)
                             else commit from to amt mem now (snd ?g))"
        by (simp add: createTransaction_def Let_def)
      with c [of "snd ?g"] g rng show ?thesis
        by (auto split: sum.splits if_splits)
    qed
  qed
qed

lemma transactions_createStudent:
  "createStudent hash gen nm pw s = Some (r, g) \<Longrightarrow> transactions (db (snd r)) = transactions (db s)"
  by (auto simp: createStudent_def Let_def db_scheduleWrite split: if_splits option.splits)

lemma step_log:
  "\<exists>new. transactions (db (step e s)) = transactions (db s) @ new \<and>
     (\<forall>t \<in> set new. \<exists>n. amount t = of_int n \<and> 1 \<le> n \<and> n \<le> 2 ^ 31 - 1)"
proof (cases e)
  case (CreateStudent hash gen nm pw)
  have "transactions (db (step e s)) = transactions (db s)"
  proof (cases "createStudent hash gen nm pw s")
    case None
    with CreateStudent show ?thesis by simp
  next
    case (Some rg)
    then have "transactions (db (snd (fst rg))) = transactions (db s)"
      using transactions_createStudent [of hash gen nm pw s "fst rg" "snd rg"] by simp
    with CreateStudent Some show ?thesis by (simp add: case_prod_unfold)
  qed
  then show ?thesis by simp
next
  case (GetStudentBalance u r)
  then show ?thesis by (simp add: transactions_getStudentBalance)
next
  case (CreateTransaction src dst amt mem now)
  let ?t = "\<lparr>time = now, from_id = src, to_id = dst, amount = amt, memo = mem\<rparr>"
  from createTransaction_log [of src dst amt mem now s]
  consider "transactions (db (step e s)) = transactions (db s) @ []"
    | "transactions (db (step e s)) = transactions (db s) @ [?t]"
      "\<exists>n. amount ?t = of_int n \<and> 1 \<le> n \<and> n \<le> 2 ^ 31 - 1"
    using CreateTransaction by auto
  then show ?thesis
  proof cases
    case 1
    then show ?thesis by (intro exI [of _ "[]"]) simp
  next
    case 2
    then show ?thesis by (intro exI [of _ "[?t]"]) simp
  qed
next
  case ScheduleWrite
  then show ?thesis by (simp add: db_scheduleWrite)
next
  case (TimerFires p)
  then show ?thesis by (simp add: timer_fires_def)
next
  case (WriteSucceeds p)
  then show ?thesis by (simp add: write_succeeds_def split: option.split)
next
  case (WriteFails p)
  then show ?thesis by (simp add: write_fails_def split: option.split)
qed

lemma run_log:
  "\<exists>new. transactions (db (run evs s)) = transactions (db s) @ new \<and>
     (\<forall>t \<in> set new. \<exists>n. amount t = of_int n \<and> 1 \<le> n \<and> n \<le> 2 ^ 31 - 1)"
proof (induction evs arbitrary: s)
  case Nil
  show ?case by simp
next
  case (Cons e evs)
  obtain new1 where 1: "transactions (db (step e s)) = transactions (db s) @ new1"
    "\<forall>t \<in> set new1. \<exists>n. amount t = of_int n \<and> 1 \<le> n \<and> n \<le> 2 ^ 31 - 1"
    using step_log [of e s] by blast
  obtain new2 where 2: "transactions (db (run evs (step e s))) = transactions (db (step e s)) @ new2"
    "\<forall>t \<in> set new2. \<exists>n. amount t = of_int n \<and> 1 \<le> n \<and> n \<le> 2 ^ 31 - 1"
    using Cons.IH [of "step e s"] by blast
  from 1 2 show ?case
    by (intro exI [of _ "new1 @ new2"]) auto
qed

lemma getStudentCheck_error: "getStudentCheck sts = Inl e \<Longrightarrow> e = Exit ERRORS_DUPLICATE"
  by (auto simp: getStudentCheck_def split: if_splits)

lemma getStudentBalance_error:
  "fst (getStudentBalance u r s) = Inl e \<Longrightarrow> e = StudentMissing u \<or> e = Exit ERRORS_DUPLICATE"
  by (auto simp: getStudentBalance_def getStudentByUUID_def Let_def
      dest: getStudentCheck_error split: if_splits sum.splits option.splits)

lemma commit_error:
  "fst (commit src dst amt mem now s) = Inl e \<Longrightarrow>
   e = StudentMissing src \<or> e = StudentMissing dst \<or> e = Exit ERRORS_DUPLICATE"
  by (auto simp: commit_def getStudentByUUID_def Let_def
      dest: getStudentCheck_error getStudentBalance_error split: sum.splits option.splits)

lemma createTransaction_integrality:
  assumes "src \<noteq> dst"
  shows "fst (createTransaction src dst amt mem now s) = Inl AmountsNotIntegers
           \<longleftrightarrow> amt \<noteq> of_int (toInt32 amt)"
proof (cases "amt = of_int (toInt32 amt)")
  case False
  with assms show ?thesis by (simp add: createTransaction_def)
next
  case True
  have "fst (createTransaction src dst amt mem now s) \<noteq> Inl AmountsNotIntegers"
  proof
    assume a: "fst (createTransaction src dst amt mem now s) = Inl AmountsNotIntegers"
    let ?g = "getStudentBalance src True s"
    from a assms True
    consider "fst (commit src dst amt mem now s) = Inl AmountsNotIntegers"
      | "fst ?g = Inl AmountsNotIntegers"
      | "fst (commit src dst amt mem now (snd ?g)) = Inl AmountsNotIntegers"
      by (auto simp: createTransaction_def Let_def split: if_splits sum.splits)
    then show False
    proof cases
      case 1
      then show False using commit_error [of src dst amt mem now s AmountsNotIntegers] by simp
    next
      case 2
      then show False using getStudentBalance_error [of src True s AmountsNotIntegers] by simp
    next
      case 3
      then show False
        using commit_error [of src dst amt mem now "snd ?g" AmountsNotIntegers] by simp
    qed
  qed
  with True show ?thesis by simp
qed

lemma filter_other_balance:
  "u \<noteq> v \<Longrightarrow>
   filter (\<lambda>x. Id (uuid x) = v) (map (\<lambda>x. if Id (uuid x) = u then x\<lparr>balance := b\<rparr> else x) xs)
     = filter (\<lambda>x. Id (uuid x) = v) xs"
  by (induction xs) auto

lemma getStudentByUUID_other:
  "u \<noteq> v \<Longrightarrow> getStudentByUUID v (snd (scheduleWrite (set_balance u b s))) = getStudentByUUID v s"
  by (simp add: getStudentByUUID_def db_scheduleWrite)
     (simp add: set_balance_def filter_other_balance)

lemma getStudentByUUID_log:
  "getStudentByUUID v (s\<lparr>db := (db s)\<lparr>transactions := l\<rparr>\<rparr>) = getStudentByUUID v s"
  by (simp add: getStudentByUUID_def)

lemma commit_appends:
  assumes "src \<noteq> dst" and "getStudentByUUID dst s = Inr (Some st)"
    and "src = Sentinel \<or> (\<exists>sf. getStudentByUUID src s = Inr (Some sf))"
  shows "fst (commit src dst amt mem now s) =
           Inr (Some (if src = Sentinel then 10000
                      else replay src (transactions (db s) @
                        [\<lparr>time = now, from_id = src, to_id = dst, amount = amt, memo = mem\<rparr>]),
                      replay dst (transactions (db s) @
                        [\<lparr>time = now, from_id = src, to_id = dst, amount = amt, memo = mem\<rparr>]))) \<and>
         transactions (db (snd (commit src dst amt mem now s))) =
           transactions (db s) @
             [\<lparr>time = now, from_id = src, to_id = dst, amount = amt, memo = mem\<rparr>]"
proof -
  let ?log = "transactions (db s) @
             [\<lparr>time = now, from_id = src, to_id = dst, amount = amt, memo = mem\<rparr>]"
  let ?s1 = "s\<lparr>db := (db s)\<lparr>transactions := ?log\<rparr>\<rparr>"
  let ?r1 = "getStudentBalance src True ?s1"
  let ?r2 = "getStudentBalance dst True (snd ?r1)"
  have dst: "dst \<noteq> Sentinel"
    using assms(2) by (auto simp: getStudentByUUID_Sentinel)
  have l1: "transactions (db ?s1) = ?log" by simp
  have d1: "getStudentByUUID dst ?s1 = Inr (Some st)"
    using assms(2) by (simp add: getStudentByUUID_log)
  have r1: "fst ?r1 = Inr (if src = Sentinel then 10000 else replay src ?log) \<and>
            getStudentByUUID dst (snd ?r1) = Inr (Some st) \<and>
            transactions (db (snd ?r1)) = ?log"
  proof (cases "src = Sentinel")
    case True
    then show ?thesis using d1 by (simp add: getStudentBalance_def)
  next
    case False
    with assms(3) obtain sf where "getStudentByUUID src s = Inr (Some sf)" by blast
    then have "getStudentByUUID src ?s1 = Inr (Some sf)" by (simp add: getStudentByUUID_log)
    with False have "?r1 = (Inr (replay src ?log),
        snd (scheduleWrite (set_balance src (replay src ?log) ?s1)))"
      using getStudentBalance_recalc [of src ?s1 sf] by simp
    with False assms(1) d1 show ?thesis
      by (simp add: getStudentByUUID_other db_scheduleWrite transactions_set_balance)
  qed
  then have r2: "?r2 = (Inr (replay dst ?log),
      snd (scheduleWrite (set_balance dst (replay dst ?log) (snd ?r1))))"
    using dst getStudentBalance_recalc [of dst "snd ?r1" st] by simp
  have c: "commit src dst amt mem now s =
      (case fst ?r1 of Inl e \<Rightarrow> (Inl e, snd ?r2)
       | Inr b1 \<Rightarrow> (case fst ?r2 of Inl e \<Rightarrow> (Inl e, snd ?r2)
          | Inr b2 \<Rightarrow> (Inr (Some (b1, b2)), snd (scheduleWrite (snd ?r2)))))"
    using assms(2) by (simp add: commit_def Let_def)
  show ?thesis
    unfolding c using r1 r2
    by (simp add: db_scheduleWrite transactions_set_balance)
qed

lemma createTransaction_accepts:
  assumes "src \<noteq> dst" and "amt = of_int n" and "1 \<le> n" and "n < 2 ^ 31"
    and "getStudentByUUID dst s = Inr (Some st)"
    and "src = Sentinel \<or> (\<exists>b. fst (getStudentBalance src True s) = Inr b \<and> amt \<le> of_int b)"
  shows "fst (createTransaction src dst amt mem now s) =
           Inr (Some (if src = Sentinel then 10000
                      else replay src (transactions (db s) @
                        [\<lparr>time = now, from_id = src, to_id = dst, amount = amt, memo = mem\<rparr>]),
                      replay dst (transactions (db s) @
                        [\<lparr>time = now, from_id = src, to_id = dst, amount = amt, memo = mem\<rparr>]))) \<and>
         transactions (db (snd (createTransaction src dst amt mem now s))) =
           transactions (db s) @
             [\<lparr>time = now, from_id = src, to_id = dst, amount = amt, memo = mem\<rparr>]"
proof -
  have ok: "amt = of_int (toInt32 amt)" "\<not> amt \<le> 0"
    using assms(2-4) toInt32_fixed_iff [of amt] by auto
  show ?thesis
  proof (cases "src = Sentinel")
    case True
    with assms(1) ok have "createTransaction src dst amt mem now s = commit src dst amt mem now s"
      by (simp add: createTransaction_def)
    with commit_appends [OF assms(1,5), of amt mem now] True show ?thesis by simp
  next
    case False
    with assms(6) obtain b where b: "fst (getStudentBalance src True s) = Inr b" "amt \<le> of_int b"
      by blast
    obtain sf where sf: "getStudentByUUID src s = Inr (Some sf)"
      using getStudentBalance_Inr [OF False b(1)] by blast
    let ?b = "replay src (transactions (db s))"
    let ?s' = "snd (scheduleWrite (set_balance src ?b s))"
    have g: "getStudentBalance src True s = (Inr ?b, ?s')"
      using False sf by (rule getStudentBalance_recalc)
    with b have nb: "\<not> of_int ?b < amt" by simp
    have ct: "createTransaction src dst amt mem now s = commit src dst amt mem now ?s'"
      using False assms(1) ok g nb by (simp add: createTransaction_def Let_def)
    have d: "getStudentByUUID dst ?s' = Inr (Some st)"
      using assms(1,5) by (simp add: getStudentByUUID_other)
    have "getStudentByUUID src ?s' = getStudentByUUID src (set_balance src ?b s)"
      by (simp add: getStudentByUUID_def db_scheduleWrite)
    then have s: "\<exists>sf'. getStudentByUUID src ?s' = Inr (Some sf')"
      using sf by (simp add: getStudentByUUID_set_balance)
    have t: "transactions (db ?s') = transactions (db s)"
      by (simp add: db_scheduleWrite transactions_set_balance)
    from commit_appends [OF assms(1) d, of amt mem now] s False
    show ?thesis unfolding ct t by simp
  qed
qed

text \<open>
  Claim C10, as the code has it. The self-transfer check comes before the integrality
  check \<open>amount !== (amount | 0)\<close>: a call with \<open>from\<close> equal to \<open>to\<close> throws the
  self-transfer error whatever the amount. A call with \<open>from\<close> different from \<open>to\<close>
  throws "Amounts must be integers" exactly when the amount is not an integer of the
  signed 32-bit range; so an integer amount of \<open>2^31\<close> or more is rejected with that error
  and the store is left as it was. An integer amount from 1 to \<open>2^31 - 1\<close> is accepted:
  when \<open>to\<close> resolves to an account, and \<open>from\<close> is the reservoir or an account whose
  recomputed balance covers the amount, the call appends the transfer and returns the two
  balances. A call either leaves the log as it was or appends the one transfer of the
  call, whose amount is then an integer from 1 to \<open>2^31 - 1\<close>; and over any run of the
  store, the log only grows at its end, by transfers with such amounts.
\<close>

theorem createTransaction_int32:
  "((amt = of_int (toInt32 amt)) \<longleftrightarrow> (\<exists>n. amt = of_int n \<and> - (2 ^ 31) \<le> n \<and> n < 2 ^ 31)) \<and>
   (src = dst \<longrightarrow> createTransaction src dst amt mem now s = (Inl SelfTransfer, s)) \<and>
   (src \<noteq> dst \<longrightarrow>
      (fst (createTransaction src dst amt mem now s) = Inl AmountsNotIntegers
         \<longleftrightarrow> \<not> (\<exists>n. amt = of_int n \<and> - (2 ^ 31) \<le> n \<and> n < 2 ^ 31))) \<and>
   (src \<noteq> dst \<longrightarrow> (\<forall>n. amt = of_int n \<and> 2 ^ 31 \<le> n \<longrightarrow>
      createTransaction src dst amt mem now s = (Inl AmountsNotIntegers, s))) \<and>
   (src \<noteq> dst \<and> (\<exists>n. amt = of_int n \<and> 1 \<le> n \<and> n < 2 ^ 31) \<and>
    getStudentByUUID dst s = Inr (Some st) \<and>
    (src = Sentinel \<or> (\<exists>b. fst (getStudentBalance src True s) = Inr b \<and> amt \<le> of_int b)) \<longrightarrow>
      fst (createTransaction src dst amt mem now s) =
        Inr (Some (if src = Sentinel then 10000
                   else replay src (transactions (db s) @
                     [\<lparr>time = now, from_id = src, to_id = dst, amount = amt, memo = mem\<rparr>]),
                   replay dst (transactions (db s) @
                     [\<lparr>time = now, from_id = src, to_id = dst, amount = amt, memo = mem\<rparr>]))) \<and>
      transactions (db (snd (createTransaction src dst amt mem now s))) =
        transactions (db s) @
          [\<lparr>time = now, from_id = src, to_id = dst, amount = amt, memo = mem\<rparr>]) \<and>
   (transactions (db (snd (createTransaction src dst amt mem now s))) = transactions (db s) \<or>
    transactions (db (snd (createTransaction src dst amt mem now s))) =
      transactions (db s) @ [\<lparr>time = now, from_id = src, to_id = dst, amount = amt, memo = mem\<rparr>] \<and>
    (\<exists>n. amt = of_int n \<and> 1 \<le> n \<and> n \<le> 2 ^ 31 - 1)) \<and>
   (\<exists>new. transactions (db (run evs s)) = transactions (db s) @ new \<and>
      (\<forall>t \<in> set new. \<exists>n. amount t = of_int n \<and> 1 \<le> n \<and> n \<le> 2 ^ 31 - 1))"
proof (intro conjI impI)
  show "(amt = of_int (toInt32 amt)) \<longleftrightarrow> (\<exists>n. amt = of_int n \<and> - (2 ^ 31) \<le> n \<and> n < 2 ^ 31)"
    by (rule toInt32_fixed_iff)
next
  assume "src = dst"
  then show "createTransaction src dst amt mem now s = (Inl SelfTransfer, s)"
    by (simp add: createTransaction_def)
next
  assume "src \<noteq> dst"
  then show "fst (createTransaction src dst amt mem now s) = Inl AmountsNotIntegers
         \<longleftrightarrow> \<not> (\<exists>n. amt = of_int n \<and> - (2 ^ 31) \<le> n \<and> n < 2 ^ 31)"
    using createTransaction_integrality [of src dst amt mem now s] toInt32_fixed_iff [of amt]
    by simp
next
  assume "src \<noteq> dst"
  then show "\<forall>n. amt = of_int n \<and> 2 ^ 31 \<le> n \<longrightarrow>
      createTransaction src dst amt mem now s = (Inl AmountsNotIntegers, s)"
    using toInt32_big by (auto simp: createTransaction_def)
next
  assume a: "src \<noteq> dst \<and> (\<exists>n. amt = of_int n \<and> 1 \<le> n \<and> n < 2 ^ 31) \<and>
    getStudentByUUID dst s = Inr (Some st) \<and>
    (src = Sentinel \<or> (\<exists>b. fst (getStudentBalance src True s) = Inr b \<and> amt \<le> of_int b))"
  then obtain n where n: "amt = of_int n" "1 \<le> n" "n < 2 ^ 31" by blast
  from a have r: "src \<noteq> dst" "getStudentByUUID dst s = Inr (Some st)"
    "src = Sentinel \<or> (\<exists>b. fst (getStudentBalance src True s) = Inr b \<and> amt \<le> of_int b)"
    by simp_all
  note acc = createTransaction_accepts [OF r(1) n r(2,3), of mem now]
  from acc show "fst (createTransaction src dst amt mem now s) =
        Inr (Some (if src = Sentinel then 10000
                   else replay src (transactions (db s) @
                     [\<lparr>time = now, from_id = src, to_id = dst, amount = amt, memo = mem\<rparr>]),
                   replay dst (transactions (db s) @
                     [\<lparr>time = now, from_id = src, to_id = dst, amount = amt, memo = mem\<rparr>])))"
    by (rule conjunct1)
  from acc show "transactions (db (snd (createTransaction src dst amt mem now s))) =
        transactions (db s) @
          [\<lparr>time = now, from_id = src, to_id = dst, amount = amt, memo = mem\<rparr>]"
    by (rule conjunct2)
next
  show "transactions (db (snd (createTransaction src dst amt mem now s))) = transactions (db s) \<or>
    transactions (db (snd (createTransaction src dst amt mem now s))) =
      transactions (db s) @ [\<lparr>time = now, from_id = src, to_id = dst, amount = amt, memo = mem\<rparr>] \<and>
    (\<exists>n. amt = of_int n \<and> 1 \<le> n \<and> n \<le> 2 ^ 31 - 1)"
    by (rule createTransaction_log)
next
  show "\<exists>new. transactions (db (run evs s)) = transactions (db s) @ new \<and>
      (\<forall>t \<in> set new. \<exists>n. amount t = of_int n \<and> 1 \<le> n \<and> n \<le> 2 ^ 31 - 1)"
    by (rule run_log)
qed

theorem createTransaction_int32_witness:
  "createTransaction Sentinel (Id ''a'') 2147483648 ''gift'' 0
     (fresh_store [\<lparr>uuid = ''a'', name = ''Cortana'', pash = ''$2b'', balance = 0\<rparr>] [])
     = (Inl AmountsNotIntegers,
        fresh_store [\<lparr>uuid = ''a'', name = ''Cortana'', pash = ''$2b'', balance = 0\<rparr>] []) \<and>
   fst (createTransaction Sentinel (Id ''a'') 2147483647 ''gift'' 0
     (fresh_store [\<lparr>uuid = ''a'', name = ''Cortana'', pash = ''$2b'', balance = 0\<rparr>] []))
     = Inr (Some (10000, 2147483647)) \<and>
   transactions (db (snd (createTransaction Sentinel (Id ''a'') 2147483647 ''gift'' 0
     (fresh_store [\<lparr>uuid = ''a'', name = ''Cortana'', pash = ''$2b'', balance = 0\<rparr>] []))))
     = [\<lparr>time = 0, from_id = Sentinel, to_id = Id ''a'', amount = 2147483647, memo = ''gift''\<rparr>]"
proof -
  let ?st = "\<lparr>uuid = ''a'', name = ''Cortana'', pash = ''$2b'', balance = 0\<rparr>"
  let ?s = "fresh_store [?st] []"
  let ?t = "\<lparr>time = 0, from_id = Sentinel, to_id = Id ''a'', amount = 2147483647, memo = ''gift''\<rparr>"
  have ne: "Sentinel \<noteq> Id ''a''" by simp
  have big: "(2147483648 :: rat) = of_int 2147483648 \<and> (2 ^ 31 :: int) \<le> 2147483648" by simp
  have rej: "createTransaction Sentinel (Id ''a'') 2147483648 ''gift'' 0 ?s
      = (Inl AmountsNotIntegers, ?s)"
    using createTransaction_int32
      [where src = Sentinel and dst = "Id ''a''" and amt = 2147483648 and mem = "''gift''"
        and now = 0 and s = ?s and evs = "[]" and st = ?st] ne big
    by blast
  have ok: "\<exists>n. (2147483647 :: rat) = of_int n \<and> 1 \<le> n \<and> n < 2 ^ 31"
    by (rule exI [of _ 2147483647]) simp
  have l: "getStudentByUUID (Id ''a'') ?s = Inr (Some ?st)"
    by (simp add: getStudentByUUID_def getStudentCheck_def fresh_store_def)
  have r: "replay (Id ''a'') (transactions (db ?s) @ [?t]) = 2147483647"
    by (simp add: replay_def fresh_store_def toInt32_def)
  have e: "transactions (db ?s) = []" by (simp add: fresh_store_def)
  have acc: "fst (createTransaction Sentinel (Id ''a'') 2147483647 ''gift'' 0 ?s) =
        Inr (Some (if Sentinel = Sentinel then 10000
                   else replay Sentinel (transactions (db ?s) @ [?t]),
                   replay (Id ''a'') (transactions (db ?s) @ [?t]))) \<and>
      transactions (db (snd (createTransaction Sentinel (Id ''a'') 2147483647 ''gift'' 0 ?s))) =
        transactions (db ?s) @ [?t]"
    using createTransaction_int32
      [where src = Sentinel and dst = "Id ''a''" and amt = 2147483647 and mem = "''gift''"
        and now = 0 and s = ?s and evs = "[]" and st = ?st] ne ok l
    by blast
  from rej acc r e show ?thesis by simp
qed

text \<open>
  Claim C10 as stated, with every positive integer amount of \<open>2^31\<close> or more rejected as
  "Amounts must be integers", fails where \<open>from\<close> equals \<open>to\<close>: the error thrown there is
  the self-transfer error.
\<close>

theorem createTransaction_self_transfer_counterexample:
  "fst (createTransaction (Id ''a'') (Id ''a'') 2147483648 ''rent'' 0
     (fresh_store [\<lparr>uuid = ''a'', name = ''Cortana'', pash = ''$2b'', balance = 0\<rparr>] []))
     = Inl SelfTransfer \<and>
   fst (createTransaction (Id ''a'') (Id ''a'') 2147483648 ''rent'' 0
     (fresh_store [\<lparr>uuid = ''a'', name = ''Cortana'', pash = ''$2b'', balance = 0\<rparr>] []))
     \<noteq> Inl AmountsNotIntegers"
  by (simp add: createTransaction_def)

section \<open>Balances by replay\<close>

lemma replay_snoc:
  "replay u (ts @ [t]) =
     replay u ts + toInt32 (amount t) * (of_bool (to_id t = u) - of_bool (from_id t = u))"
  by (simp add: replay_def)

lemma spec_fold_snoc:
  "spec_fold u (ts @ [t]) bal =
     spec_fold u ts bal + (if to_id t = u then amount t else 0)
       - (if from_id t = u then amount t else 0)"
  by (induction ts arbitrary: bal) simp_all

lemma replay_spec_fold:
  "(\<And>t. t \<in> set ts \<Longrightarrow> amount t = of_int (toInt32 (amount t))) \<Longrightarrow>
   of_int (replay u ts) = spec_fold u ts 0"
proof (induction ts rule: rev_induct)
  case Nil
  show ?case by (simp add: replay_def)
next
  case (snoc t ts)
  have a: "amount t = of_int (toInt32 (amount t))" using snoc.prems by simp
  have "of_int (replay u ts) = spec_fold u ts 0" using snoc by simp
  then show ?case
    using a by (simp add: replay_snoc spec_fold_snoc)
qed

text \<open>
  Claim C1, as the code has it. For an identifier that \<open>getStudentByUUID\<close> resolves to an
  account, \<open>getStudentBalance(id, true)\<close> returns the replay of the whole log, in which
  each transaction counts with \<open>amount | 0\<close>, the signed 32-bit truncation of its amount:
  added where \<open>to\<close> is the identifier, subtracted where \<open>from\<close> is. The number returned
  does not depend on the cached balance, and a second call right after the first returns
  the same number. Where every amount of the log is an integer of the signed 32-bit range,
  the replay is the fold of the amounts themselves.
\<close>

theorem getStudentBalance_recalc_replay:
  assumes "getStudentByUUID (Id i) s = Inr (Some st)"
  shows "fst (getStudentBalance (Id i) True s) = Inr (replay (Id i) (transactions (db s))) \<and>
         fst (getStudentBalance (Id i) True (set_balance (Id i) c s))
           = fst (getStudentBalance (Id i) True s) \<and>
         fst (getStudentBalance (Id i) True (snd (getStudentBalance (Id i) True s)))
           = fst (getStudentBalance (Id i) True s) \<and>
         ((\<forall>t \<in> set (transactions (db s)). amount t = of_int (toInt32 (amount t))) \<longrightarrow>
            of_int (replay (Id i) (transactions (db s))) = spec_fold (Id i) (transactions (db s)) 0)"
proof (intro conjI impI)
  let ?b = "replay (Id i) (transactions (db s))"
  have g: "getStudentBalance (Id i) True s = (Inr ?b, snd (scheduleWrite (set_balance (Id i) ?b s)))"
    using assms by (simp add: getStudentBalance_recalc)
  then show "fst (getStudentBalance (Id i) True s) = Inr ?b" by simp
  have l: "getStudentByUUID (Id i) (set_balance (Id i) v s) = Inr (Some (st\<lparr>balance := v\<rparr>))" for v
    using assms by (simp add: getStudentByUUID_set_balance)
  have "fst (getStudentBalance (Id i) True (set_balance (Id i) c s)) = Inr ?b"
    using l [of c] by (simp add: getStudentBalance_recalc transactions_set_balance)
  with g show "fst (getStudentBalance (Id i) True (set_balance (Id i) c s))
           = fst (getStudentBalance (Id i) True s)" by simp
  let ?s' = "snd (scheduleWrite (set_balance (Id i) ?b s))"
  have "getStudentByUUID (Id i) ?s' = getStudentByUUID (Id i) (set_balance (Id i) ?b s)"
    by (simp add: getStudentByUUID_def db_scheduleWrite)
  with l [of ?b] have "getStudentByUUID (Id i) ?s' = Inr (Some (st\<lparr>balance := ?b\<rparr>))" by simp
  then have "fst (getStudentBalance (Id i) True ?s') = Inr ?b"
    by (simp add: getStudentBalance_recalc db_scheduleWrite transactions_set_balance)
  with g show "fst (getStudentBalance (Id i) True (snd (getStudentBalance (Id i) True s)))
           = fst (getStudentBalance (Id i) True s)" by simp
next
  assume "\<forall>t \<in> set (transactions (db s)). amount t = of_int (toInt32 (amount t))"
  then show "of_int (replay (Id i) (transactions (db s))) = spec_fold (Id i) (transactions (db s)) 0"
    by (intro replay_spec_fold) blast
qed

theorem getStudentBalance_recalc_replay_witness:
  "fst (getStudentBalance (Id ''a'') True
     (fresh_store [\<lparr>uuid = ''a'', name = ''Cortana'', pash = ''$2b'', balance = 7\<rparr>]
        [\<lparr>time = 0, from_id = Sentinel, to_id = Id ''a'', amount = 20, memo = ''gift''\<rparr>,
         \<lparr>time = 1, from_id = Id ''a'', to_id = Id ''b'', amount = 5, memo = ''rent''\<rparr>])) = Inr 15 \<and>
   spec_fold (Id ''a'')
     [\<lparr>time = 0, from_id = Sentinel, to_id = Id ''a'', amount = 20, memo = ''gift''\<rparr>,
      \<lparr>time = 1, from_id = Id ''a'', to_id = Id ''b'', amount = 5, memo = ''rent''\<rparr>] 0 = 15"
proof -
  let ?st = "\<lparr>uuid = ''a'', name = ''Cortana'', pash = ''$2b'', balance = 7\<rparr>"
  let ?log = "[\<lparr>time = 0, from_id = Sentinel, to_id = Id ''a'', amount = 20, memo = ''gift''\<rparr>,
         \<lparr>time = 1, from_id = Id ''a'', to_id = Id ''b'', amount = 5, memo = ''rent''\<rparr>]"
  let ?s = "fresh_store [?st] ?log"
  have h: "getStudentByUUID (Id ''a'') ?s = Inr (Some ?st)"
    by (simp add: getStudentByUUID_def getStudentCheck_def fresh_store_def)
  have l: "transactions (db ?s) = ?log" by (simp add: fresh_store_def)
  have r: "replay (Id ''a'') ?log = 15"
    by (simp add: replay_def toInt32_def)
  have a: "\<forall>t \<in> set ?log. amount t = of_int (toInt32 (amount t))"
    by (simp add: toInt32_def)
  from getStudentBalance_recalc_replay [OF h, of 0] l r a show ?thesis by simp
qed

text \<open>
  Claim C1 as stated, with the amounts themselves in the fold, fails on a log that holds
  the amount \<open>2^31\<close>: the code returns \<open>-2^31\<close>, the fold of the amounts is \<open>2^31\<close>.
\<close>

theorem getStudentBalance_wraps_counterexample:
  "fst (getStudentBalance (Id ''a'') True
     (fresh_store [\<lparr>uuid = ''a'', name = ''Cortana'', pash = ''$2b'', balance = 0\<rparr>]
        [\<lparr>time = 0, from_id = Sentinel, to_id = Id ''a'', amount = 2147483648, memo = ''''\<rparr>]))
     = Inr (- 2147483648) \<and>
   spec_fold (Id ''a'')
     [\<lparr>time = 0, from_id = Sentinel, to_id = Id ''a'', amount = 2147483648, memo = ''''\<rparr>] 0
     = 2147483648"
  by (simp add: eval_defs)

section \<open>Transfers: the two lookups\<close>

text \<open>
  Claim C2 says that a withdrawal to the reservoir skips the lookup of \<open>to\<close>. The code
  does not skip it: the block of \<open>if (to === 0)\<close> is empty and the lookup that follows
  has no \<open>else\<close>. No account carries the identifier 0, so whenever \<open>from\<close> is an account
  whose recomputed balance covers a positive 32-bit integer amount, the call with
  \<open>to = 0\<close> throws "Student with UUID '0' does not exist" and appends nothing.
\<close>

theorem withdrawal_to_sentinel_not_found:
  assumes "from \<noteq> Sentinel"
    and "amt = of_int n" and "0 < n" and "n < 2 ^ 31"
    and "fst (getStudentBalance from True s) = Inr b" and "amt \<le> of_int b"
  shows "fst (createTransaction from Sentinel amt mem now s) = Inl (StudentMissing Sentinel) \<and>
         transactions (db (snd (createTransaction from Sentinel amt mem now s)))
           = transactions (db s)"
proof -
  let ?g = "getStudentBalance from True s"
  have ok: "amt = of_int (toInt32 amt)" "\<not> amt \<le> 0"
    using assms(2-4) toInt32_fixed_iff [of amt] by auto
  have "\<not> of_int b < amt" using assms(6) by simp
  with assms(1,5) ok
  have "createTransaction from Sentinel amt mem now s = commit from Sentinel amt mem now (snd ?g)"
    by (simp add: createTransaction_def Let_def)
  moreover have "commit from Sentinel amt mem now (snd ?g) = (Inl (StudentMissing Sentinel), snd ?g)"
    by (simp add: commit_def getStudentByUUID_Sentinel)
  ultimately show ?thesis by (simp add: transactions_getStudentBalance)
qed

theorem withdrawal_to_sentinel_not_found_witness:
  "fst (createTransaction (Id ''a'') Sentinel 5 ''cash'' 1
     (fresh_store [\<lparr>uuid = ''a'', name = ''Cortana'', pash = ''$2b'', balance = 20\<rparr>]
        [\<lparr>time = 0, from_id = Sentinel, to_id = Id ''a'', amount = 20, memo = ''''\<rparr>]))
     = Inl (StudentMissing Sentinel)"
proof -
  let ?s = "fresh_store [\<lparr>uuid = ''a'', name = ''Cortana'', pash = ''$2b'', balance = 20\<rparr>]
        [\<lparr>time = 0, from_id = Sentinel, to_id = Id ''a'', amount = 20, memo = ''''\<rparr>]"
  have b: "fst (getStudentBalance (Id ''a'') True ?s) = Inr 20"
    by (simp add: eval_defs)
  have "Id ''a'' \<noteq> Sentinel" "(5::rat) = of_int 5" "(0::int) < 5" "(5::int) < 2 ^ 31"
    "(5::rat) \<le> of_int 20" by simp_all
  from withdrawal_to_sentinel_not_found [OF this(1-4) b this(5)]
  show ?thesis by simp
qed

text \<open>
  Claim C3, as the code has it. When \<open>from\<close> is an account whose recomputed balance is
  below a positive 32-bit integer amount (and \<open>from\<close> differs from \<open>to\<close>), the call
  returns \<open>null\<close>. The store it leaves is the store it found after the recomputation of
  that balance: the cached balance of \<open>from\<close> holds the replayed value and
  \<open>scheduleWrite\<close> has been called. The log is unchanged, and so is every other field of
  every account.
\<close>

theorem insufficient_funds_declined:
  assumes "from \<noteq> Sentinel" and "from \<noteq> to"
    and "amt = of_int n" and "0 < n" and "n < 2 ^ 31"
    and "fst (getStudentBalance from True s) = Inr b" and "of_int b < amt"
  shows "createTransaction from to amt mem now s
           = (Inr None, snd (scheduleWrite (set_balance from b s))) \<and>
         b = replay from (transactions (db s)) \<and>
         transactions (db (snd (createTransaction from to amt mem now s)))
           = transactions (db s) \<and>
         students (db (snd (createTransaction from to amt mem now s)))
           = map (\<lambda>x. if Id (uuid x) = from then x\<lparr>balance := b\<rparr> else x) (students (db s))"
proof -
  let ?g = "getStudentBalance from True s"
  have ok: "amt = of_int (toInt32 amt)" "\<not> amt \<le> 0"
    using assms(3-5) toInt32_fixed_iff [of amt] by auto
  obtain st where st: "getStudentByUUID from s = Inr (Some st)"
    using getStudentBalance_Inr [OF assms(1,6)] by blast
  have g: "?g = (Inr (replay from (transactions (db s))),
      snd (scheduleWrite (set_balance from (replay from (transactions (db s))) s)))"
    using assms(1) st by (rule getStudentBalance_recalc)
  with assms(6) have b: "b = replay from (transactions (db s))" by simp
  from assms(1,2,7) ok g b
  have r: "createTransaction from to amt mem now s
      = (Inr None, snd (scheduleWrite (set_balance from b s)))"
    by (simp add: createTransaction_def Let_def)
  show ?thesis
    unfolding r using b
    by (simp add: db_scheduleWrite transactions_set_balance) (simp add: set_balance_def)
qed

theorem insufficient_funds_declined_witness:
  "createTransaction (Id ''a'') (Id ''b'') 100 ''rent'' 2
     (fresh_store [\<lparr>uuid = ''a'', name = ''Cortana'', pash = ''$2b'', balance = 15\<rparr>,
                   \<lparr>uuid = ''b'', name = ''Zangetsu'', pash = ''$2b'', balance = 5\<rparr>]
        [\<lparr>time = 0, from_id = Sentinel, to_id = Id ''a'', amount = 20, memo = ''''\<rparr>,
         \<lparr>time = 1, from_id = Id ''a'', to_id = Id ''b'', amount = 5, memo = ''''\<rparr>])
   = (Inr None,
      snd (scheduleWrite
        (fresh_store [\<lparr>uuid = ''a'', name = ''Cortana'', pash = ''$2b'', balance = 15\<rparr>,
                   \<lparr>uuid = ''b'', name = ''Zangetsu'', pash = ''$2b'', balance = 5\<rparr>]
        [\<lparr>time = 0, from_id = Sentinel, to_id = Id ''a'', amount = 20, memo = ''''\<rparr>,
         \<lparr>time = 1, from_id = Id ''a'', to_id = Id ''b'', amount = 5, memo = ''''\<rparr>])))"
proof -
  let ?s = "fresh_store [\<lparr>uuid = ''a'', name = ''Cortana'', pash = ''$2b'', balance = 15\<rparr>,
                   \<lparr>uuid = ''b'', name = ''Zangetsu'', pash = ''$2b'', balance = 5\<rparr>]
        [\<lparr>time = 0, from_id = Sentinel, to_id = Id ''a'', amount = 20, memo = ''''\<rparr>,
         \<lparr>time = 1, from_id = Id ''a'', to_id = Id ''b'', amount = 5, memo = ''''\<rparr>]"
  have b: "fst (getStudentBalance (Id ''a'') True ?s) = Inr 15"
    by (simp add: eval_defs)
  have "Id ''a'' \<noteq> Sentinel" "Id ''a'' \<noteq> Id ''b''" "(100::rat) = of_int 100" "(0::int) < 100"
    "(100::int) < 2 ^ 31" "(of_int 15 :: rat) < 100" by simp_all
  from insufficient_funds_declined [OF this(1-5) b this(6)]
  show ?thesis by (simp add: set_balance_def fresh_store_def)
qed

text \<open>
  Claim C3 as stated fails twice. A declined transfer does mutate the store: on an account
  whose cached balance is 7 over an empty log, the cache becomes 0 and \<open>writeP\<close> is set.
  And a positive integer amount of \<open>2^31\<close> is not declined but rejected by the
  integrality check.
\<close>

theorem insufficient_funds_mutates_counterexample:
  "fst (createTransaction (Id ''a'') (Id ''b'') 5 ''rent'' 0
     (fresh_store [\<lparr>uuid = ''a'', name = ''Cortana'', pash = ''$2b'', balance = 7\<rparr>,
                   \<lparr>uuid = ''b'', name = ''Zangetsu'', pash = ''$2b'', balance = 0\<rparr>] []))
     = Inr None \<and>
   db (snd (createTransaction (Id ''a'') (Id ''b'') 5 ''rent'' 0
     (fresh_store [\<lparr>uuid = ''a'', name = ''Cortana'', pash = ''$2b'', balance = 7\<rparr>,
                   \<lparr>uuid = ''b'', name = ''Zangetsu'', pash = ''$2b'', balance = 0\<rparr>] [])))
     = \<lparr>students = [\<lparr>uuid = ''a'', name = ''Cortana'', pash = ''$2b'', balance = 0\<rparr>,
                    \<lparr>uuid = ''b'', name = ''Zangetsu'', pash = ''$2b'', balance = 0\<rparr>],
        transactions = []\<rparr> \<and>
   writeP (fresh_store [\<lparr>uuid = ''a'', name = ''Cortana'', pash = ''$2b'', balance = 7\<rparr>,
                   \<lparr>uuid = ''b'', name = ''Zangetsu'', pash = ''$2b'', balance = 0\<rparr>] [])
     = None \<and>
   writeP (snd (createTransaction (Id ''a'') (Id ''b'') 5 ''rent'' 0
     (fresh_store [\<lparr>uuid = ''a'', name = ''Cortana'', pash = ''$2b'', balance = 7\<rparr>,
                   \<lparr>uuid = ''b'', name = ''Zangetsu'', pash = ''$2b'', balance = 0\<rparr>] [])))
     = Some 0 \<and>
   fst (createTransaction (Id ''a'') (Id ''b'') 2147483648 ''rent'' 0
     (fresh_store [\<lparr>uuid = ''a'', name = ''Cortana'', pash = ''$2b'', balance = 7\<rparr>,
                   \<lparr>uuid = ''b'', name = ''Zangetsu'', pash = ''$2b'', balance = 0\<rparr>] []))
     = Inl AmountsNotIntegers"
  by (simp add: eval_defs)

section \<open>Accounts: creation and verification\<close>

lemma dropWhile_shorter: "xs \<noteq> [] \<Longrightarrow> P (hd xs) \<Longrightarrow> length (dropWhile P xs) < length xs"
  by (cases xs) (simp_all add: le_imp_less_Suc length_dropWhile_le)

lemma dropWhile_same: "xs = [] \<or> \<not> P (hd xs) \<Longrightarrow> dropWhile P xs = xs"
  by (cases xs) auto

lemma trim_changes_iff:
  "trim nm \<noteq> nm \<longleftrightarrow> nm \<noteq> [] \<and> (is_space (hd nm) \<or> is_space (last nm))"
proof (cases "nm = []")
  case True
  then show ?thesis by (simp add: trim_def)
next
  case ne: False
  have len: "length (trim nm) \<le> length (dropWhile is_space nm)"
    using length_dropWhile_le [of is_space "rev (dropWhile is_space nm)"]
    by (simp add: trim_def)
  show ?thesis
  proof (cases "is_space (hd nm)")
    case True
    with ne have "length (dropWhile is_space nm) < length nm" by (rule dropWhile_shorter)
    with len have "length (trim nm) < length nm" by simp
    then have "trim nm \<noteq> nm" by auto
    with ne True show ?thesis by simp
  next
    case hd: False
    then have d: "dropWhile is_space nm = nm" by (simp add: dropWhile_same)
    show ?thesis
    proof (cases "is_space (last nm)")
      case True
      with ne have "length (dropWhile is_space (rev nm)) < length (rev nm)"
        by (intro dropWhile_shorter) (simp_all add: hd_rev)
      then have "length (trim nm) < length nm" by (simp add: trim_def d)
      then have "trim nm \<noteq> nm" by auto
      with ne True show ?thesis by simp
    next
      case False
      with ne have "dropWhile is_space (rev nm) = rev nm"
        by (intro dropWhile_same) (simp add: hd_rev)
      then have "trim nm = nm" by (simp add: trim_def d)
      with hd False show ?thesis by simp
    qed
  qed
qed

lemma uuid_taken_iff: "filter (\<lambda>x. uuid x = v) sts \<noteq> [] \<longleftrightarrow> v \<in> uuid ` set sts"
  by (auto simp: filter_empty_conv)

lemma fresh_uuid_returns:
  "gen !! k \<notin> uuid ` set sts \<Longrightarrow>
   \<exists>u g. fresh_uuid sts gen = Some (u, g) \<and> u \<notin> uuid ` set sts"
proof (induction k arbitrary: gen)
  case 0
  then have "filter (\<lambda>x. uuid x = shd gen) sts = []"
    using uuid_taken_iff [of "shd gen" sts] by simp
  then have "fresh_uuid sts gen = Some (shd gen, stl gen)"
    by (subst fresh_uuid.simps) simp
  with 0 show ?case by simp
next
  case (Suc k)
  show ?case
  proof (cases "shd gen \<in> uuid ` set sts")
    case True
    then have "filter (\<lambda>x. uuid x = shd gen) sts \<noteq> []"
      using uuid_taken_iff [of "shd gen" sts] by simp
    then have "fresh_uuid sts gen = fresh_uuid sts (stl gen)"
      by (subst fresh_uuid.simps) simp
    moreover have "stl gen !! k \<notin> uuid ` set sts" using Suc.prems by simp
    ultimately show ?thesis using Suc.IH [of "stl gen"] by simp
  next
    case False
    then have "filter (\<lambda>x. uuid x = shd gen) sts = []"
      using uuid_taken_iff [of "shd gen" sts] by simp
    then have "fresh_uuid sts gen = Some (shd gen, stl gen)"
      by (subst fresh_uuid.simps) simp
    with False show ?thesis by simp
  qed
qed

text \<open>
  Claim C5. \<open>createStudent\<close> throws one of the three validation errors when the name
  begins or ends with white space, when the name is empty, or when the password has fewer
  than 10 characters. With a valid name and password it throws "User ... already exists"
  when an account carries exactly that name. Otherwise, with a generator that at some
  draw returns an identifier no account carries, it appends one account with the name,
  the digest, balance 0 and an identifier no account carried before, leaves the log as it
  was, and returns that identifier.
\<close>

theorem createStudent_contract:
  "((nm \<noteq> [] \<and> (is_space (hd nm) \<or> is_space (last nm))) \<or> nm = [] \<or> length pw < 10 \<longrightarrow>
      (\<exists>e. e \<in> {NameSpaces, NameMissing, PasswordShort} \<and>
         createStudent hash gen nm pw s = Some ((Inl e, s), gen))) \<and>
   (nm \<noteq> [] \<and> \<not> is_space (hd nm) \<and> \<not> is_space (last nm) \<and> 10 \<le> length pw \<longrightarrow>
      (nm \<in> name ` set (students (db s)) \<longrightarrow>
         createStudent hash gen nm pw s = Some ((Inl (UserExists nm), s), gen)) \<and>
      (nm \<notin> name ` set (students (db s)) \<and> (\<exists>k. gen !! k \<notin> uuid ` set (students (db s))) \<longrightarrow>
         (\<exists>u gen' s'. createStudent hash gen nm pw s = Some ((Inr u, s'), gen') \<and>
            u \<notin> uuid ` set (students (db s)) \<and>
            students (db s') = students (db s) @
              [\<lparr>uuid = u, name = nm, pash = hash pw, balance = 0\<rparr>] \<and>
            transactions (db s') = transactions (db s))))"
proof (intro conjI impI)
  assume "(nm \<noteq> [] \<and> (is_space (hd nm) \<or> is_space (last nm))) \<or> nm = [] \<or> length pw < 10"
  then have "trim nm \<noteq> nm \<or> length nm = 0 \<or> length pw < 10"
    using trim_changes_iff [of nm] by auto
  then have "createStudent hash gen nm pw s = Some ((Inl NameSpaces, s), gen) \<or>
    createStudent hash gen nm pw s = Some ((Inl NameMissing, s), gen) \<or>
    createStudent hash gen nm pw s = Some ((Inl PasswordShort, s), gen)"
    by (auto simp: createStudent_def)
  then show "\<exists>e. e \<in> {NameSpaces, NameMissing, PasswordShort} \<and>
         createStudent hash gen nm pw s = Some ((Inl e, s), gen)"
    by auto
next
  assume v: "nm \<noteq> [] \<and> \<not> is_space (hd nm) \<and> \<not> is_space (last nm) \<and> 10 \<le> length pw"
  then have t: "trim nm = nm" using trim_changes_iff [of nm] by blast
  {
    assume "nm \<in> name ` set (students (db s))"
    then have "filter (\<lambda>x. name x = nm) (students (db s)) \<noteq> []"
      by (auto simp: filter_empty_conv)
    with v t show "createStudent hash gen nm pw s = Some ((Inl (UserExists nm), s), gen)"
      by (simp add: createStudent_def)
  }
  {
    assume a: "nm \<notin> name ` set (students (db s)) \<and>
      (\<exists>k. gen !! k \<notin> uuid ` set (students (db s)))"
    then have f: "filter (\<lambda>x. name x = nm) (students (db s)) = []"
      by (auto simp: filter_empty_conv)
    from a obtain u g where u: "fresh_uuid (students (db s)) gen = Some (u, g)"
      "u \<notin> uuid ` set (students (db s))"
      using fresh_uuid_returns by blast
    let ?s1 = "s\<lparr>db := (db s)\<lparr>students := students (db s) @
                      [\<lparr>uuid = u, name = nm, pash = hash pw, balance = 0\<rparr>]\<rparr>\<rparr>"
    have "createStudent hash gen nm pw s = Some ((Inr u, snd (scheduleWrite ?s1)), g)"
      using v t f u(1) by (simp add: createStudent_def)
    moreover have "db (snd (scheduleWrite ?s1)) = db ?s1" by (rule db_scheduleWrite)
    ultimately show "\<exists>u gen' s'. createStudent hash gen nm pw s = Some ((Inr u, s'), gen') \<and>
            u \<notin> uuid ` set (students (db s)) \<and>
            students (db s') = students (db s) @
              [\<lparr>uuid = u, name = nm, pash = hash pw, balance = 0\<rparr>] \<and>
            transactions (db s') = transactions (db s)"
      using u(2) by simp
  }
qed

theorem createStudent_contract_witness:
  "(\<exists>e. e \<in> {NameSpaces, NameMissing, PasswordShort} \<and>
      createStudent (\<lambda>p. ''$2b$10$'' @ p) (sconst ''u1'') '' Cortana'' ''GuiltySpark343''
        (fresh_store [] [])
      = Some ((Inl e, fresh_store [] []), sconst ''u1'')) \<and>
   createStudent (\<lambda>p. ''$2b$10$'' @ p) (sconst ''u2'') ''Cortana'' ''GuiltySpark343''
     (fresh_store [\<lparr>uuid = ''u1'', name = ''Cortana'', pash = ''$2b'', balance = 0\<rparr>] [])
     = Some ((Inl (UserExists ''Cortana''),
         fresh_store [\<lparr>uuid = ''u1'', name = ''Cortana'', pash = ''$2b'', balance = 0\<rparr>] []),
         sconst ''u2'') \<and>
   (\<exists>u gen' s'.
      createStudent (\<lambda>p. ''$2b$10$'' @ p) (''u1'' ## sconst ''u2'') ''Zangetsu'' ''GetsugaTensho''
        (fresh_store [\<lparr>uuid = ''u1'', name = ''Cortana'', pash = ''$2b'', balance = 0\<rparr>] [])
      = Some ((Inr u, s'), gen') \<and>
      u \<noteq> ''u1'' \<and>
      students (db s') =
        [\<lparr>uuid = ''u1'', name = ''Cortana'', pash = ''$2b'', balance = 0\<rparr>,
         \<lparr>uuid = u, name = ''Zangetsu'', pash = ''$2b$10$GetsugaTensho'', balance = 0\<rparr>])"
proof (intro conjI)
  have "is_space (hd '' Cortana'')" by (simp add: is_space_def)
  with createStudent_contract [of "'' Cortana''" "''GuiltySpark343''" "\<lambda>p. ''$2b$10$'' @ p"
      "sconst ''u1''" "fresh_store [] []"]
  show "\<exists>e. e \<in> {NameSpaces, NameMissing, PasswordShort} \<and>
      createStudent (\<lambda>p. ''$2b$10$'' @ p) (sconst ''u1'') '' Cortana'' ''GuiltySpark343''
        (fresh_store [] [])
      = Some ((Inl e, fresh_store [] []), sconst ''u1'')"
    by simp
next
  let ?s = "fresh_store [\<lparr>uuid = ''u1'', name = ''Cortana'', pash = ''$2b'', balance = 0\<rparr>] []"
  have "''Cortana'' \<noteq> [] \<and> \<not> is_space (hd ''Cortana'') \<and> \<not> is_space (last ''Cortana'') \<and>
    10 \<le> length ''GuiltySpark343''" by (simp add: is_space_def)
  moreover have "''Cortana'' \<in> name ` set (students (db ?s))" by (simp add: fresh_store_def)
  ultimately show "createStudent (\<lambda>p. ''$2b$10$'' @ p) (sconst ''u2'') ''Cortana'' ''GuiltySpark343'' ?s
     = Some ((Inl (UserExists ''Cortana''), ?s), sconst ''u2'')"
    using createStudent_contract [of "''Cortana''" "''GuiltySpark343''" "\<lambda>p. ''$2b$10$'' @ p"
      "sconst ''u2''" ?s]
    by blast
next
  let ?s = "fresh_store [\<lparr>uuid = ''u1'', name = ''Cortana'', pash = ''$2b'', balance = 0\<rparr>] []"
  let ?g = "''u1'' ## sconst ''u2''"
  have "''Zangetsu'' \<noteq> [] \<and> \<not> is_space (hd ''Zangetsu'') \<and> \<not> is_space (last ''Zangetsu'') \<and>
    10 \<le> length ''GetsugaTensho''" by (simp add: is_space_def)
  moreover have "''Zangetsu'' \<notin> name ` set (students (db ?s))" by (simp add: fresh_store_def)
  moreover have "?g !! 1 \<notin> uuid ` set (students (db ?s))" by (simp add: fresh_store_def)
  then have "\<exists>k. ?g !! k \<notin> uuid ` set (students (db ?s))" by blast
  ultimately have "\<exists>u gen' s'.
      createStudent (\<lambda>p. ''$2b$10$'' @ p) ?g ''Zangetsu'' ''GetsugaTensho'' ?s
        = Some ((Inr u, s'), gen') \<and>
      u \<notin> uuid ` set (students (db ?s)) \<and>
      students (db s') = students (db ?s) @
        [\<lparr>uuid = u, name = ''Zangetsu'', pash = (\<lambda>p. ''$2b$10$'' @ p) ''GetsugaTensho'', balance = 0\<rparr>] \<and>
      transactions (db s') = transactions (db ?s)"
    using createStudent_contract [of "''Zangetsu''" "''GetsugaTensho''" "\<lambda>p. ''$2b$10$'' @ p" ?g ?s]
    by blast
  then show "\<exists>u gen' s'.
      createStudent (\<lambda>p. ''$2b$10$'' @ p) ?g ''Zangetsu'' ''GetsugaTensho'' ?s
      = Some ((Inr u, s'), gen') \<and>
      u \<noteq> ''u1'' \<and>
      students (db s') =
        [\<lparr>uuid = ''u1'', name = ''Cortana'', pash = ''$2b'', balance = 0\<rparr>,
         \<lparr>uuid = u, name = ''Zangetsu'', pash = ''$2b$10$GetsugaTensho'', balance = 0\<rparr>]"
    by (simp add: fresh_store_def) blast
qed

text \<open>
  Claim C4. With a non-blank name and password: when the one account of that name has
  the password, the claim expects the structured result holding the account, but the
  function ends after \<open>ret.student = students[0]\<close> with no \<open>return\<close>, and its value is
  \<open>undefined\<close>. When the one account of that name does not have the password, the result
  is the structure with the failure "Wrong password"; when no account has the name, the
  structure with the failure "... does not exist".
\<close>

theorem verifyStudent_paths:
  "nm \<noteq> [] \<and> pw \<noteq> [] \<longrightarrow>
     (filter (\<lambda>x. name x = nm) (students (db s)) = [st] \<and> compare pw (pash st) \<longrightarrow>
        verifyStudent compare nm pw s = Inr None) \<and>
     (filter (\<lambda>x. name x = nm) (students (db s)) = [st] \<and> \<not> compare pw (pash st) \<longrightarrow>
        verifyStudent compare nm pw s = Inr (Some \<lparr>student = None, err = [WrongPassword]\<rparr>)) \<and>
     (filter (\<lambda>x. name x = nm) (students (db s)) = [] \<longrightarrow>
        verifyStudent compare nm pw s = Inr (Some \<lparr>student = None, err = [DoesNotExist nm]\<rparr>))"
  by (simp add: verifyStudent_def Let_def)

theorem verifyStudent_paths_witness:
  "verifyStudent (\<lambda>p h. h = ''$2b$10$'' @ p) ''Cortana'' ''GuiltySpark343''
     (fresh_store [\<lparr>uuid = ''u1'', name = ''Cortana'', pash = ''$2b$10$GuiltySpark343'',
                    balance = 0\<rparr>] []) = Inr None"
proof -
  let ?st = "\<lparr>uuid = ''u1'', name = ''Cortana'', pash = ''$2b$10$GuiltySpark343'', balance = 0\<rparr>"
  have "''Cortana'' \<noteq> [] \<and> ''GuiltySpark343'' \<noteq> []" by simp
  moreover have "filter (\<lambda>x. name x = ''Cortana'') (students (db (fresh_store [?st] []))) = [?st] \<and>
    (\<lambda>p h. h = ''$2b$10$'' @ p) ''GuiltySpark343'' (pash ?st)"
    by (simp add: fresh_store_def)
  ultimately show ?thesis
    using verifyStudent_paths [of "''Cortana''" "''GuiltySpark343''" "fresh_store [?st] []" ?st
        "\<lambda>p h. h = ''$2b$10$'' @ p"]
    by blast
qed

section \<open>Exit codes\<close>

text \<open>
  Claim C9 asks for pairwise distinct exit codes. The table is written with \<open><\<close> where
  its comment ("powers of two") describes \<open><<\<close>: \<open>READ\<close> and \<open>PARSE\<close> are both
  \<open>false\<close>, and only \<open>DUPLICATE\<close> is \<open>true\<close>. A constructor that cannot read the file,
  one that reads text not starting with a brace, and one whose text does not parse all
  end in \<open>process.exit(false)\<close>.
\<close>

theorem ERRORS_collide:
  "ERRORS_READ = ERRORS_PARSE \<and> ERRORS_READ = False \<and> ERRORS_DUPLICATE = True \<and>
   constructor True (Some None) parse = Inl (Exit False) \<and>
   constructor True (Some (Some ''[1, 2]'')) parse = Inl (Exit False) \<and>
   constructor True (Some (Some ''{students'')) (\<lambda>text. None) = Inl (Exit False)"
  by (simp add: ERRORS_READ_def ERRORS_PARSE_def ERRORS_DUPLICATE_def constructor_def trim_def
      is_space_def)

section \<open>The single pending-write slot\<close>

lemma sched_scheduleWrite_cong:
  "sched s1 = sched s2 \<Longrightarrow> sched (snd (scheduleWrite s1)) = sched (snd (scheduleWrite s2))"
  by (auto simp: sched_def scheduleWrite_def Let_def split: option.splits)

lemma scheduleWrite_twice: "snd (scheduleWrite (snd (scheduleWrite s))) = snd (scheduleWrite s)"
  by (auto simp: scheduleWrite_def Let_def split: option.splits)

lemma joins_refl: "joins s s"
  by (simp add: joins_def)

lemma joins_scheduleWrite: "joins s (snd (scheduleWrite s))"
  by (simp add: joins_def)

lemma joins_trans: "joins s s1 \<Longrightarrow> joins s1 s2 \<Longrightarrow> joins s s2"
  unfolding joins_def
  using sched_scheduleWrite_cong [of s1 s] sched_scheduleWrite_cong [of s1 "snd (scheduleWrite s)"]
    scheduleWrite_twice [of s]
  by auto

lemma joins_sched: "sched s1 = sched s \<Longrightarrow> joins s1 s2 \<Longrightarrow> joins s s2"
  unfolding joins_def using sched_scheduleWrite_cong [of s1 s] by auto

lemma sched_set_balance: "sched (set_balance u b s) = sched s"
  by (simp add: sched_def set_balance_def)

lemma sched_db_update: "sched (s\<lparr>db := d\<rparr>) = sched s"
  by (simp add: sched_def)

lemma joins_getStudentBalance: "joins s (snd (getStudentBalance u r s))"
proof -
  have "joins s (snd (scheduleWrite (set_balance u b s)))" for b
    using joins_sched [OF sched_set_balance joins_scheduleWrite] .
  then show ?thesis
    by (simp add: getStudentBalance_def Let_def joins_refl split: sum.split option.split)
qed

lemma joins_commit: "joins s (snd (commit from to amt mem now s))"
proof -
  let ?s1 = "s\<lparr>db := (db s)\<lparr>transactions := transactions (db s) @
               [\<lparr>time = now, from_id = from, to_id = to, amount = amt, memo = mem\<rparr>]\<rparr>\<rparr>"
  let ?r1 = "getStudentBalance from True ?s1"
  let ?r2 = "getStudentBalance to True (snd ?r1)"
  have a: "joins s (snd ?r1)"
    using joins_sched [OF sched_db_update joins_getStudentBalance] .
  have b: "joins s (snd ?r2)"
    using joins_trans [OF a joins_getStudentBalance] .
  have c: "joins s (snd (scheduleWrite (snd ?r2)))"
    using joins_trans [OF b joins_scheduleWrite] .
  show ?thesis
    using b c by (simp add: commit_def Let_def joins_refl split: sum.split option.split)
qed

lemma joins_createTransaction: "joins s (snd (createTransaction from to amt mem now s))"
proof -
  let ?r = "getStudentBalance from True s"
  have a: "joins s (snd ?r)" by (rule joins_getStudentBalance)
  have b: "joins s (snd (commit from to amt mem now (snd ?r)))"
    using joins_trans [OF a joins_commit] .
  show ?thesis
    using a b joins_commit [of s]
    by (simp add: createTransaction_def Let_def joins_refl split: sum.split)
qed

lemma joins_createStudent:
  "createStudent hash gen nm pw s = Some (r, g) \<Longrightarrow> joins s (snd r)"
proof -
  assume c: "createStudent hash gen nm pw s = Some (r, g)"
  have "joins s (snd (scheduleWrite (s\<lparr>db := d\<rparr>)))" for d
    using joins_sched [OF sched_db_update joins_scheduleWrite] .
  with c show ?thesis
    by (auto simp: createStudent_def Let_def joins_refl split: if_splits option.splits)
qed

lemma sched_inv_sched: "sched s' = sched s \<Longrightarrow> sched_inv s' = sched_inv s"
  by (auto simp: sched_def sched_inv_def split: option.splits)

lemma sched_inv_scheduleWrite: "sched_inv s \<Longrightarrow> sched_inv (snd (scheduleWrite s))"
proof (cases "writeP s")
  case (Some p)
  assume "sched_inv s"
  with Some show ?thesis by (simp add: scheduleWrite_def)
next
  case None
  assume "sched_inv s"
  with None have "running s = []"
    by (cases "running s") (simp_all add: sched_inv_def)
  with None show ?thesis
    by (simp add: scheduleWrite_def sched_inv_def Let_def)
qed

lemma sched_inv_joins: "sched_inv s \<Longrightarrow> joins s s' \<Longrightarrow> sched_inv s'"
  unfolding joins_def
  using sched_inv_sched [of s' s] sched_inv_sched [of s' "snd (scheduleWrite s)"]
    sched_inv_scheduleWrite [of s]
  by auto

lemma sched_inv_timer_fires: "sched_inv s \<Longrightarrow> sched_inv (timer_fires p s)"
  by (auto simp: sched_inv_def timer_fires_def list_all_iff split: option.splits)

lemma flushing_running:
  "flushing p s = Some snapshot \<Longrightarrow> sched_inv s \<Longrightarrow> \<exists>ph. running s = [(p, ph)]"
proof -
  assume f: "flushing p s = Some snapshot" and i: "sched_inv s"
  from f have "filter (\<lambda>(q, ph). q = p \<and> ph \<noteq> Debounce) (running s) \<noteq> []"
    by (auto simp: flushing_def)
  then obtain c where c: "c \<in> set (running s)" "fst c = p"
    by (auto simp: filter_empty_conv)
  from i have "length (running s) \<le> 1" by (simp add: sched_inv_def)
  with c(1) have "running s = [c]"
    by (cases "running s") auto
  with c(2) show ?thesis by (cases c) auto
qed

lemma sched_inv_write_succeeds: "sched_inv s \<Longrightarrow> sched_inv (write_succeeds p s)"
proof (cases "flushing p s")
  case None
  assume "sched_inv s"
  with None show ?thesis by (simp add: write_succeeds_def)
next
  case (Some snapshot)
  assume i: "sched_inv s"
  with Some obtain ph where "running s = [(p, ph)]" using flushing_running by blast
  with Some show ?thesis
    by (simp add: write_succeeds_def sched_inv_def)
qed

lemma sched_inv_write_fails: "sched_inv s \<Longrightarrow> sched_inv (write_fails p s)"
proof (cases "flushing p s")
  case None
  assume "sched_inv s"
  with None show ?thesis by (simp add: write_fails_def)
next
  case (Some snapshot)
  assume i: "sched_inv s"
  with Some obtain ph where "running s = [(p, ph)]" using flushing_running by blast
  with Some i show ?thesis
    by (auto simp: write_fails_def sched_inv_def split: option.splits)
qed

lemma sched_inv_step: "sched_inv s \<Longrightarrow> sched_inv (step e s)"
proof (cases e)
  case (CreateStudent hash gen nm pw)
  assume i: "sched_inv s"
  show ?thesis
  proof (cases "createStudent hash gen nm pw s")
    case None
    with CreateStudent i show ?thesis by simp
  next
    case (Some rg)
    then have "joins s (snd (fst rg))" using joins_createStudent [of hash gen nm pw s "fst rg" "snd rg"] by simp
    with i have "sched_inv (snd (fst rg))" by (rule sched_inv_joins)
    with CreateStudent Some show ?thesis by (simp add: case_prod_unfold)
  qed
qed (simp_all add: sched_inv_joins [OF _ joins_getStudentBalance]
      sched_inv_joins [OF _ joins_createTransaction] sched_inv_scheduleWrite
      sched_inv_timer_fires sched_inv_write_succeeds sched_inv_write_fails)

lemma sched_inv_run: "sched_inv s \<Longrightarrow> sched_inv (run evs s)"
  by (induction evs arbitrary: s) (simp_all add: sched_inv_step)

lemma sched_inv_fresh: "writeP s = None \<Longrightarrow> running s = [] \<Longrightarrow> sched_inv s"
  by (simp add: sched_inv_def)

lemma constructor_no_write:
  "constructor lock_ok bank parse = Inr s \<Longrightarrow> writeP s = None \<and> running s = []"
  by (auto simp: constructor_def fresh_store_def split: if_splits sum.splits option.splits)

text \<open>
  Claim C7. While \<open>writeP\<close> holds a promise, a call of \<open>scheduleWrite\<close> returns that
  promise and changes nothing, so it starts no second cycle. And from a store with no
  write pending, as the constructor builds it, after any sequence of calls of the
  interface, timers and write completions, at most one activation of \<open>scheduleWrite\<close> is
  in flight, and it is the one whose promise \<open>writeP\<close> holds.
\<close>

theorem single_pending_write:
  "(writeP s = Some p \<longrightarrow> scheduleWrite s = (Joins p, s)) \<and>
   (writeP s = None \<and> running s = [] \<longrightarrow>
      length (running (run evs s)) \<le> 1 \<and>
      list_all (\<lambda>c. writeP (run evs s) = Some (fst c)) (running (run evs s)))"
proof (intro conjI impI)
  assume "writeP s = Some p"
  then show "scheduleWrite s = (Joins p, s)" by (simp add: scheduleWrite_def)
next
  assume "writeP s = None \<and> running s = []"
  then have "sched_inv (run evs s)" by (simp add: sched_inv_fresh sched_inv_run)
  then show "length (running (run evs s)) \<le> 1"
    and "list_all (\<lambda>c. writeP (run evs s) = Some (fst c)) (running (run evs s))"
    by (simp_all add: sched_inv_def)
qed

theorem single_pending_write_witness:
  "scheduleWrite (snd (scheduleWrite (fresh_store [] [])))
     = (Joins 0, snd (scheduleWrite (fresh_store [] []))) \<and>
   length (running (run [ScheduleWrite, ScheduleWrite, TimerFires 0, ScheduleWrite]
     (fresh_store [] []))) \<le> 1"
proof
  have "writeP (snd (scheduleWrite (fresh_store [] []))) = Some 0"
    by (simp add: scheduleWrite_def fresh_store_def)
  with single_pending_write [of "snd (scheduleWrite (fresh_store [] []))" 0 "[]"]
  show "scheduleWrite (snd (scheduleWrite (fresh_store [] [])))
     = (Joins 0, snd (scheduleWrite (fresh_store [] [])))"
    by blast
next
  have "writeP (fresh_store [] []) = None \<and> running (fresh_store [] []) = []"
    by (simp add: fresh_store_def)
  with single_pending_write [of "fresh_store [] []" 0
      "[ScheduleWrite, ScheduleWrite, TimerFires 0, ScheduleWrite]"]
  show "length (running (run [ScheduleWrite, ScheduleWrite, TimerFires 0, ScheduleWrite]
     (fresh_store [] []))) \<le> 1"
    by blast
qed

section \<open>A failed flush\<close>

lemma stuck_joins: "stuck p s \<Longrightarrow> joins s s' \<Longrightarrow> sched s' = sched s"
  by (auto simp: stuck_def joins_def scheduleWrite_def)

lemma stuck_flushing: "stuck p s \<Longrightarrow> flushing q s = None"
  by (simp add: stuck_def flushing_def)

lemma stuck_step: "stuck p s \<Longrightarrow> sched (step e s) = sched s"
proof (cases e)
  case (CreateStudent hash gen nm pw)
  assume i: "stuck p s"
  show ?thesis
  proof (cases "createStudent hash gen nm pw s")
    case None
    with CreateStudent show ?thesis by simp
  next
    case (Some rg)
    then have "joins s (snd (fst rg))"
      using joins_createStudent [of hash gen nm pw s "fst rg" "snd rg"] by simp
    with i have "sched (snd (fst rg)) = sched s" by (rule stuck_joins)
    with CreateStudent Some show ?thesis by (simp add: case_prod_unfold)
  qed
next
  case (TimerFires q)
  assume "stuck p s"
  with TimerFires show ?thesis by (simp add: stuck_def timer_fires_def sched_def)
qed (simp_all add: stuck_joins [OF _ joins_getStudentBalance]
      stuck_joins [OF _ joins_createTransaction] stuck_joins [OF _ joins_scheduleWrite]
      write_succeeds_def write_fails_def stuck_flushing)

lemma stuck_sched: "sched s' = sched s \<Longrightarrow> stuck p s \<Longrightarrow> stuck p s'"
  by (simp add: sched_def stuck_def)

lemma stuck_run: "stuck p s \<Longrightarrow> sched (run evs s) = sched s"
proof (induction evs arbitrary: s)
  case Nil
  show ?case by simp
next
  case (Cons e evs)
  have a: "sched (step e s) = sched s" using Cons.prems by (rule stuck_step)
  then have "stuck p (step e s)" using Cons.prems by (rule stuck_sched)
  then have "sched (run evs (step e s)) = sched (step e s)" by (rule Cons.IH)
  with a show ?case by simp
qed

lemma write_fails_stuck:
  assumes "sched_inv s" and "flushing p s = Some snapshot"
  shows "stuck p (write_fails p s)"
proof -
  obtain ph where r: "running s = [(p, ph)]"
    using flushing_running [OF assms(2,1)] by blast
  with assms(1) have "writeP s = Some p \<and> p < length (promises s) \<and> promises s ! p = Pending"
    by (auto simp: sched_inv_def split: option.splits)
  with r assms(2) show ?thesis
    by (simp add: write_fails_def stuck_def)
qed

text \<open>
  Claim C8 expects a failed flush to notify every waiter, to clear the pending state and
  to let the next call start a new cycle. The code has no handler around
  \<open>await fs.writeFile\<close>, so the two statements after it do not run. In a store run from
  one with no write pending, when the flush of cycle \<open>p\<close> fails, the result of the call
  that started the cycle is rejected; and after any further calls, timers and completions:
  \<open>writeP\<close> still holds promise \<open>p\<close>, no activation is in flight, the promise that the
  joined callers hold is still pending, a call of \<open>scheduleWrite\<close> joins it and changes
  nothing, and the file on disk is what it was before the failed flush.
\<close>

theorem failed_flush_wedges:
  assumes "writeP s0 = None \<and> running s0 = []"
    and "flushing p (run evs s0) = Some snapshot"
  shows "settled (write_fails p (run evs s0)) (Starts p) = Some Rejected \<and>
         writeP (run evs' (write_fails p (run evs s0))) = Some p \<and>
         running (run evs' (write_fails p (run evs s0))) = [] \<and>
         settled (run evs' (write_fails p (run evs s0))) (Joins p) = Some Pending \<and>
         scheduleWrite (run evs' (write_fails p (run evs s0)))
           = (Joins p, run evs' (write_fails p (run evs s0))) \<and>
         disk (run evs' (write_fails p (run evs s0))) = disk (run evs s0)"
proof -
  let ?s = "run evs s0"
  let ?f = "write_fails p ?s"
  let ?s' = "run evs' ?f"
  have inv: "sched_inv ?s" using assms(1) by (simp add: sched_inv_fresh sched_inv_run)
  have st: "stuck p ?f" using inv assms(2) by (rule write_fails_stuck)
  then have eq: "sched ?s' = sched ?f" by (rule stuck_run)
  then have st': "stuck p ?s'" using st by (rule stuck_sched)
  have "settled ?f (Starts p) = Some Rejected"
    using assms(2) st by (simp add: settled_def write_fails_def stuck_def)
  moreover have "writeP ?s' = Some p" "running ?s' = []" using st' by (simp_all add: stuck_def)
  moreover have "settled ?s' (Joins p) = Some Pending"
    using st' by (simp add: stuck_def settled_def)
  moreover have "scheduleWrite ?s' = (Joins p, ?s')"
    using st' by (simp add: stuck_def scheduleWrite_def)
  moreover have "disk ?s' = disk ?f" using eq by (simp add: sched_def)
  moreover have "disk ?f = disk ?s" using assms(2) by (simp add: write_fails_def)
  ultimately show ?thesis by simp
qed

theorem failed_flush_wedges_witness:
  "settled (run [ScheduleWrite, ScheduleWrite, TimerFires 0, WriteFails 0] (fresh_store [] []))
     (Joins 0) = Some Pending \<and>
   writeP (run [ScheduleWrite, ScheduleWrite, TimerFires 0, WriteFails 0, ScheduleWrite]
     (fresh_store [] [])) = Some 0 \<and>
   running (run [ScheduleWrite, ScheduleWrite, TimerFires 0, WriteFails 0, ScheduleWrite]
     (fresh_store [] [])) = []"
proof -
  let ?s0 = "fresh_store [] []"
  let ?evs = "[ScheduleWrite, ScheduleWrite, TimerFires 0]"
  have a: "writeP ?s0 = None \<and> running ?s0 = []" by (simp add: fresh_store_def)
  have b: "flushing 0 (run ?evs ?s0) = Some \<lparr>students = [], transactions = []\<rparr>"
    by (simp add: fresh_store_def scheduleWrite_def timer_fires_def flushing_def)
  from failed_flush_wedges [OF a b, of "[]"] failed_flush_wedges [OF a b, of "[ScheduleWrite]"]
  show ?thesis by simp
qed

section \<open>The script mock_bank_data_init.js\<close>

lemma fresh_uuid_first:
  "filter (\<lambda>x. uuid x = shd gen) sts = [] \<Longrightarrow> fresh_uuid sts gen = Some (shd gen, stl gen)"
  by (subst fresh_uuid.simps) simp

text \<open>
  The script creates two accounts, deposits 20 from the reservoir to the first and moves 5
  from the first to the second. With a generator that returns \<open>c0\<close>, then \<open>z1\<close>, the
  balances returned are 10000 and 20, then 15 and 5; a transfer of 100 after that is
  declined and leaves the balances at 15 and 5.
\<close>

lemma mock_bank_data_init:
  defines "h \<equiv> \<lambda>p. ''$2b$10$'' @ p"
  defines "g \<equiv> ''c0'' ## ''z1'' ## sconst ''x''"
  shows "\<exists>s1 g1 s2 g2 s3 s4.
     createStudent h g ''Cortana'' ''GuiltySpark343'' (fresh_store [] [])
       = Some ((Inr ''c0'', s1), g1) \<and>
     createStudent h g1 ''Zangetsu'' ''GetsugaTensho'' s1 = Some ((Inr ''z1'', s2), g2) \<and>
     createTransaction Sentinel (Id ''c0'') 20 [] 1 s2 = (Inr (Some (10000, 20)), s3) \<and>
     createTransaction (Id ''c0'') (Id ''z1'') 5 [] 2 s3 = (Inr (Some (15, 5)), s4) \<and>
     fst (createTransaction (Id ''c0'') (Id ''z1'') 100 [] 3 s4) = Inr None \<and>
     map balance (students (db (snd (createTransaction (Id ''c0'') (Id ''z1'') 100 [] 3 s4))))
       = [15, 5]"
  unfolding h_def g_def
  by (simp add: createStudent_def trim_def is_space_def fresh_uuid_first eval_defs)

end
